theory Spec2Isabelle
  imports Complex_Main "HOL-Library.Word"
begin

unbundle bit_operations_syntax

section \<open>JavaScript values\<close>

text \<open>
  A JavaScript string is a sequence of UTF-16 code units; binary data is a sequence of
  bytes held either in an \<open>ArrayBuffer\<close> or in a \<open>Uint8Array\<close> view (a Node
  \<open>Buffer\<close> is a \<open>Uint8Array\<close>). The two kinds of binary value are kept apart
  because \<open>abConcat\<close> below treats them differently.
\<close>

type_synonym byte = "8 word"
type_synonym bytes = "byte list"
type_synonym jsstring = "16 word list"

datatype bufsrc = ArrayBuffer bytes | Uint8Array bytes

datatype jsdata = Str jsstring | Buf bufsrc

datatype error =
    TypeError string
  | SyntaxError
  | NotSupportedError
  | DataError
  | OperationError
  | InvalidAccessError

datatype encoding = Hex | Utf8 | Ascii | Latin1

definition js :: "string \<Rightarrow> jsstring" where
  \<comment> \<open>an ASCII literal as a JavaScript string\<close>
  "js s = map (\<lambda>c. of_int (of_char c)) s"

fun byteLength :: "bufsrc \<Rightarrow> nat" where
  "byteLength (ArrayBuffer bs) = length bs"
| "byteLength (Uint8Array bs) = length bs"

fun contents :: "bufsrc \<Rightarrow> bytes" where
  \<comment> \<open>the bytes a \<open>BufferSource\<close> argument hands to \<open>Buffer.from\<close> or to WebCrypto\<close>
  "contents (ArrayBuffer bs) = bs"
| "contents (Uint8Array bs) = bs"

section \<open>Node's Buffer: text encodings\<close>

text \<open>
  \<open>Buffer.from(string, encoding)\<close> and \<open>buf.toString(encoding)\<close> for the encodings
  \<open>'hex'\<close>, \<open>'utf-8'\<close>, \<open>'ascii'\<close> and \<open>'latin1'\<close>.

  Hex decoding reads the string two code units at a time and stops, without an error, at
  the first pair that is not two hexadecimal digits; a trailing single unit is dropped.
  Node looks each code unit up through its low eight bits.
\<close>

definition unhex :: "16 word \<Rightarrow> nat option" where
  "unhex u =
     (let c = unat (ucast u :: byte) in
      if 48 \<le> c \<and> c \<le> 57 then Some (c - 48)
      else if 65 \<le> c \<and> c \<le> 70 then Some (c - 55)
      else if 97 \<le> c \<and> c \<le> 102 then Some (c - 87)
      else None)"

fun hex_decode :: "jsstring \<Rightarrow> bytes" where
  "hex_decode (a # b # rest) =
     (case unhex a of
        None \<Rightarrow> []
      | Some x \<Rightarrow>
          (case unhex b of
             None \<Rightarrow> []
           | Some y \<Rightarrow> of_nat (16 * x + y) # hex_decode rest))"
| "hex_decode [a] = []"
| "hex_decode [] = []"

definition hexdigit :: "nat \<Rightarrow> 16 word" where
  "hexdigit n = (if n < 10 then of_nat (48 + n) else of_nat (87 + n))"

fun hex_encode :: "bytes \<Rightarrow> jsstring" where
  "hex_encode [] = []"
| "hex_encode (b # bs) = hexdigit (unat b div 16) # hexdigit (unat b mod 16) # hex_encode bs"

text \<open>
  UTF-8. Encoding first reads the UTF-16 code units as code points (a surrogate pair is one
  code point, a lone surrogate becomes U+FFFD), then writes one to four bytes per code
  point. Decoding follows the WHATWG decoder that V8 implements: an ill-formed sequence
  yields U+FFFD and decoding resumes at the byte that ended it.
\<close>

definition is_high :: "16 word \<Rightarrow> bool" where
  "is_high u = (0xD800 \<le> unat u \<and> unat u < 0xDC00)"

definition is_low :: "16 word \<Rightarrow> bool" where
  "is_low u = (0xDC00 \<le> unat u \<and> unat u < 0xE000)"

definition bmp_point :: "16 word \<Rightarrow> nat" where
  "bmp_point u = (if is_high u \<or> is_low u then 0xFFFD else unat u)"

fun code_points :: "jsstring \<Rightarrow> nat list" where
  "code_points (u # l # rest) =
     (if is_high u \<and> is_low l
      then (0x10000 + (unat u - 0xD800) * 0x400 + (unat l - 0xDC00)) # code_points rest
      else bmp_point u # code_points (l # rest))"
| "code_points [u] = [bmp_point u]"
| "code_points [] = []"

definition utf8_bytes :: "nat \<Rightarrow> bytes" where
  "utf8_bytes c =
     (if c < 0x80 then [of_nat c]
      else if c < 0x800 then [of_nat (0xC0 + c div 64), of_nat (0x80 + c mod 64)]
      else if c < 0x10000 then
        [of_nat (0xE0 + c div 4096), of_nat (0x80 + c div 64 mod 64), of_nat (0x80 + c mod 64)]
      else
        [of_nat (0xF0 + c div 262144), of_nat (0x80 + c div 4096 mod 64),
         of_nat (0x80 + c div 64 mod 64), of_nat (0x80 + c mod 64)])"

definition utf8_encode :: "jsstring \<Rightarrow> bytes" where
  "utf8_encode s = concat (map utf8_bytes (code_points s))"

function utf8_dec :: "nat \<Rightarrow> nat \<Rightarrow> nat \<Rightarrow> nat \<Rightarrow> nat list \<Rightarrow> nat list" where
  "utf8_dec needed cp lo hi [] = (if needed = 0 then [] else [0xFFFD])"
| "utf8_dec needed cp lo hi (b # bs) =
     (if needed = 0 then
        (if b < 0x80 then b # utf8_dec 0 0 0x80 0xBF bs
         else if 0xC2 \<le> b \<and> b \<le> 0xDF then utf8_dec 1 (b - 0xC0) 0x80 0xBF bs
         else if 0xE0 \<le> b \<and> b \<le> 0xEF then
           utf8_dec 2 (b - 0xE0) (if b = 0xE0 then 0xA0 else 0x80) (if b = 0xED then 0x9F else 0xBF) bs
         else if 0xF0 \<le> b \<and> b \<le> 0xF4 then
           utf8_dec 3 (b - 0xF0) (if b = 0xF0 then 0x90 else 0x80) (if b = 0xF4 then 0x8F else 0xBF) bs
         else 0xFFFD # utf8_dec 0 0 0x80 0xBF bs)
      else if b < lo \<or> hi < b then 0xFFFD # utf8_dec 0 0 0x80 0xBF (b # bs)
      else if needed = 1 then (cp * 64 + (b - 0x80)) # utf8_dec 0 0 0x80 0xBF bs
      else utf8_dec (needed - 1) (cp * 64 + (b - 0x80)) 0x80 0xBF bs)"
  by pat_completeness auto
termination
  by (relation "measure (\<lambda>(needed, cp, lo, hi, bs). 2 * length bs + (if needed = 0 then 0 else 1))") auto

definition utf16_units :: "nat \<Rightarrow> jsstring" where
  "utf16_units c =
     (if c < 0x10000 then [of_nat c]
      else [of_nat (0xD800 + (c - 0x10000) div 0x400), of_nat (0xDC00 + (c - 0x10000) mod 0x400)])"

definition utf8_decode :: "bytes \<Rightarrow> jsstring" where
  "utf8_decode bs = concat (map utf16_units (utf8_dec 0 0 0x80 0xBF (map unat bs)))"

definition buffer_from_string :: "jsstring \<Rightarrow> encoding \<Rightarrow> bytes" where
  \<comment> \<open>\<open>Buffer.from(string, encoding)\<close>; \<open>'ascii'\<close> writes like \<open>'latin1'\<close>: the low byte of each unit\<close>
  "buffer_from_string s enc =
     (case enc of
        Hex \<Rightarrow> hex_decode s
      | Utf8 \<Rightarrow> utf8_encode s
      | Ascii \<Rightarrow> map ucast s
      | Latin1 \<Rightarrow> map ucast s)"

definition buffer_toString :: "bytes \<Rightarrow> encoding \<Rightarrow> jsstring" where
  \<comment> \<open>\<open>buf.toString(encoding)\<close>; \<open>'ascii'\<close> clears the high bit of every byte\<close>
  "buffer_toString bs enc =
     (case enc of
        Hex \<Rightarrow> hex_encode bs
      | Utf8 \<Rightarrow> utf8_decode bs
      | Ascii \<Rightarrow> map (\<lambda>b. ucast (b AND 0x7F)) bs
      | Latin1 \<Rightarrow> map ucast bs)"

section \<open>ArrayBuffer utilities of the package\<close>

definition ab2str :: "bufsrc \<Rightarrow> encoding option \<Rightarrow> jsstring" where
  \<comment> \<open>\<open>ab2str(arrayBuffer, encoding = "hex")\<close>\<close>
  "ab2str arrayBuffer encoding =
     buffer_toString (contents arrayBuffer) (case encoding of None \<Rightarrow> Hex | Some e \<Rightarrow> e)"

definition str2ab :: "jsstring \<Rightarrow> encoding option \<Rightarrow> bufsrc" where
  \<comment> \<open>\<open>str2ab(string, encoding = "hex")\<close>: the bytes of the Buffer, copied into a fresh \<open>Uint8Array\<close>\<close>
  "str2ab string encoding =
     Uint8Array (buffer_from_string string (case encoding of None \<Rightarrow> Hex | Some e \<Rightarrow> e))"

text \<open>
  \<open>result.set(source, offset)\<close> on a \<open>Uint8Array\<close>: a typed-array source is copied in at
  the offset; any other object is read as an array-like through its \<open>length\<close> property,
  which an \<open>ArrayBuffer\<close> does not have, so nothing is copied from it. (A source that
  does not fit raises a RangeError; \<open>abConcat\<close> sizes its result so that every source
  fits, see \<open>copy_loop\<close> below.)
\<close>

fun typed_array_set :: "bytes \<Rightarrow> bufsrc \<Rightarrow> nat \<Rightarrow> bytes" where
  "typed_array_set result (Uint8Array src) offset =
     take offset result @ src @ drop (offset + length src) result"
| "typed_array_set result (ArrayBuffer src) offset = result"

definition abConcat :: "bufsrc list \<Rightarrow> bufsrc" where
  "abConcat buffers =
     (let result = replicate (fold (\<lambda>buf totalSize. totalSize + byteLength buf) buffers 0) 0
      in Uint8Array (fst (fold (\<lambda>buffer (res, offset).
                                  (typed_array_set res buffer offset, offset + byteLength buffer))
                               buffers (result, 0))))"

section \<open>The WebCrypto interface\<close>

text \<open>
  The package calls \<open>crypto.subtle\<close> and \<open>crypto.getRandomValues\<close>. The primitives
  behind them (the hash functions, PBKDF2, AES-CBC) are parameters of the model; the checks
  that WebCrypto performs around them (key algorithm, key usages, key and IV lengths) are
  written out. A JavaScript number is a rational here: \<open>iterations / 2\<close> is exact.
\<close>

record webcrypto =
  hash_prim :: "string \<Rightarrow> (bytes \<Rightarrow> bytes) option"
  pbkdf2_prim :: "string \<Rightarrow> bytes \<Rightarrow> bytes \<Rightarrow> rat \<Rightarrow> nat \<Rightarrow> error + bytes"
  aes_cbc_encrypt :: "bytes \<Rightarrow> bytes \<Rightarrow> bytes \<Rightarrow> bytes"
  aes_cbc_decrypt :: "bytes \<Rightarrow> bytes \<Rightarrow> bytes \<Rightarrow> bytes option"

record cryptokey =
  algorithm :: string
  raw :: bytes
  extractable :: bool
  usages :: "string list"

definition importKey :: "bufsrc \<Rightarrow> string \<Rightarrow> bool \<Rightarrow> string list \<Rightarrow> error + cryptokey" where
  \<comment> \<open>\<open>crypto.subtle.importKey("raw", keyData, algorithm, extractable, usages)\<close>\<close>
  "importKey keyData alg ext us =
     (if alg = ''PBKDF2'' then
        (if ext \<or> \<not> list_all (\<lambda>u. u = ''deriveKey'' \<or> u = ''deriveBits'') us then Inl SyntaxError
         else Inr \<lparr>algorithm = alg, raw = contents keyData, extractable = ext, usages = us\<rparr>)
      else if alg = ''AES-CBC'' then
        (if \<not> list_all (\<lambda>u. u = ''encrypt'' \<or> u = ''decrypt'' \<or> u = ''wrapKey'' \<or> u = ''unwrapKey'') us
         then Inl SyntaxError
         else if byteLength keyData = 16 \<or> byteLength keyData = 24 \<or> byteLength keyData = 32
         then Inr \<lparr>algorithm = alg, raw = contents keyData, extractable = ext, usages = us\<rparr>
         else Inl DataError)
      else Inl NotSupportedError)"

definition subtle_deriveBits ::
  "webcrypto \<Rightarrow> string \<Rightarrow> bufsrc \<Rightarrow> rat \<Rightarrow> cryptokey \<Rightarrow> nat \<Rightarrow> error + bytes" where
  \<comment> \<open>\<open>crypto.subtle.deriveBits({name: "PBKDF2", hash, salt, iterations}, baseKey, length)\<close>\<close>
  "subtle_deriveBits env h saltBuffer its baseKey len =
     (if algorithm baseKey = ''PBKDF2'' \<and> ''deriveBits'' \<in> set (usages baseKey)
      then pbkdf2_prim env h (raw baseKey) (contents saltBuffer) its len
      else Inl InvalidAccessError)"

definition subtle_encrypt :: "webcrypto \<Rightarrow> bufsrc \<Rightarrow> cryptokey \<Rightarrow> bufsrc \<Rightarrow> error + bytes" where
  \<comment> \<open>\<open>crypto.subtle.encrypt({name: "AES-CBC", iv}, key, data)\<close>\<close>
  "subtle_encrypt env ivb k dat =
     (if algorithm k = ''AES-CBC'' \<and> ''encrypt'' \<in> set (usages k)
      then (if byteLength ivb = 16
            then Inr (aes_cbc_encrypt env (raw k) (contents ivb) (contents dat))
            else Inl OperationError)
      else Inl InvalidAccessError)"

definition subtle_decrypt :: "webcrypto \<Rightarrow> bufsrc \<Rightarrow> cryptokey \<Rightarrow> bufsrc \<Rightarrow> error + bytes" where
  \<comment> \<open>\<open>crypto.subtle.decrypt({name: "AES-CBC", iv}, key, data)\<close>\<close>
  "subtle_decrypt env ivb k dat =
     (if algorithm k = ''AES-CBC'' \<and> ''decrypt'' \<in> set (usages k)
      then (if byteLength ivb = 16
            then (case aes_cbc_decrypt env (raw k) (contents ivb) (contents dat) of
                    None \<Rightarrow> Inl OperationError
                  | Some p \<Rightarrow> Inr p)
            else Inl OperationError)
      else Inl InvalidAccessError)"

definition subtle_digest :: "webcrypto \<Rightarrow> string \<Rightarrow> bufsrc \<Rightarrow> error + bytes" where
  \<comment> \<open>\<open>crypto.subtle.digest(hash, data)\<close>\<close>
  "subtle_digest env h dat =
     (case hash_prim env h of
        None \<Rightarrow> Inl NotSupportedError
      | Some f \<Rightarrow> Inr (f (contents dat)))"

text \<open>
  The random source is a stream of bytes; \<open>crypto.getRandomValues(new Uint8Array(n))\<close>
  takes the next \<open>n\<close> of them.
\<close>

type_synonym entropy = "nat \<Rightarrow> byte"

definition getRandomValues :: "nat \<Rightarrow> entropy \<Rightarrow> bytes \<times> entropy" where
  "getRandomValues n rng = (map rng [0..<n], \<lambda>i. rng (i + n))"

definition slice :: "bytes \<Rightarrow> int \<Rightarrow> int option \<Rightarrow> bytes" where
  \<comment> \<open>\<open>ArrayBuffer.prototype.slice(begin, end)\<close>: a negative index counts from the end\<close>
  "slice bs begin fin =
     (let len = int (length bs);
          first = (if begin < 0 then max (len + begin) 0 else min begin len);
          e = (case fin of None \<Rightarrow> len | Some x \<Rightarrow> x);
          final = (if e < 0 then max (len + e) 0 else min e len)
      in take (nat (final - first)) (drop (nat first) bs))"

section \<open>Basic cryptography functions\<close>

record options =
  hash :: "string option"
  salt :: "jsdata option"

record keygen_options = options +
  iterations :: "rat option"
  keyLengthByte :: "nat option"

record keyobject =
  key :: cryptokey
  iv :: bufsrc
  secretSalt :: "jsdata option"

definition digest :: "webcrypto \<Rightarrow> jsdata \<Rightarrow> options \<Rightarrow> error + jsstring" where
  "digest env dat opts =
     (let hash' = (case hash opts of None \<Rightarrow> ''SHA-256'' | Some h \<Rightarrow> h);
          salt' = (case salt opts of None \<Rightarrow> Str (js ''DEFAULT-SALT'') | Some s \<Rightarrow> s);
          saltBuffer = (case salt' of Str s \<Rightarrow> str2ab s (Some Utf8) | Buf b \<Rightarrow> b);
          dataBuffer = (case dat of Str s \<Rightarrow> str2ab s (Some Utf8) | Buf b \<Rightarrow> b)
      in case subtle_digest env hash' (abConcat [dataBuffer, saltBuffer]) of
           Inl e \<Rightarrow> Inl e
         | Inr hashBuffer \<Rightarrow> Inr (ab2str (ArrayBuffer hashBuffer) None))"

definition encrypt ::
  "webcrypto \<Rightarrow> jsstring \<Rightarrow> keyobject \<Rightarrow> encoding option \<Rightarrow> error + jsstring" where
  "encrypt env text keyObject encoding =
     (case subtle_encrypt env (iv keyObject) (key keyObject) (str2ab text (Some Utf8)) of
        Inl e \<Rightarrow> Inl e
      | Inr encryptedBuffer \<Rightarrow> Inr (ab2str (ArrayBuffer encryptedBuffer) encoding))"

definition decrypt ::
  "webcrypto \<Rightarrow> jsdata \<Rightarrow> keyobject \<Rightarrow> encoding option \<Rightarrow> error + jsstring" where
  "decrypt env encryptedData keyObject encoding =
     (let dataBuffer = (case encryptedData of Str s \<Rightarrow> str2ab s encoding | Buf b \<Rightarrow> b)
      in case subtle_decrypt env (iv keyObject) (key keyObject) dataBuffer of
           Inl e \<Rightarrow> Inl e
         | Inr decryptedText \<Rightarrow> Inr (ab2str (ArrayBuffer decryptedText) (Some Utf8)))"

text \<open>The pair of the same names in \<open>src/crypto.js\<close>.\<close>

definition crypto_js_encrypt ::
  "webcrypto \<Rightarrow> jsstring \<Rightarrow> keyobject \<Rightarrow> encoding option \<Rightarrow> error + jsstring" where
  "crypto_js_encrypt env text keyObject encoding =
     (case subtle_encrypt env (iv keyObject) (key keyObject) (str2ab text encoding) of
        Inl e \<Rightarrow> Inl e
      | Inr encryptedText \<Rightarrow> Inr (ab2str (ArrayBuffer encryptedText) encoding))"

definition crypto_js_decrypt ::
  "webcrypto \<Rightarrow> jsstring \<Rightarrow> keyobject \<Rightarrow> encoding option \<Rightarrow> error + jsstring" where
  "crypto_js_decrypt env encryptedText keyObject encoding =
     (let textBuffer = str2ab encryptedText encoding
      in case subtle_decrypt env (iv keyObject) (key keyObject) textBuffer of
           Inl e \<Rightarrow> Inl e
         | Inr decryptedText \<Rightarrow> Inr (ab2str (ArrayBuffer decryptedText) encoding))"

section \<open>SSE functions\<close>

definition genSecretKey ::
  "webcrypto \<Rightarrow> jsstring option \<Rightarrow> keygen_options \<Rightarrow> entropy \<Rightarrow> (error + keyobject) \<times> entropy" where
  "genSecretKey env secret opts rng =
     (let secret' = (case secret of None \<Rightarrow> js ''PASSPHRASE'' | Some s \<Rightarrow> s);
          hash' = (case hash opts of None \<Rightarrow> ''SHA-256'' | Some h \<Rightarrow> h);
          (salt', rng1) = (case salt opts of
                             None \<Rightarrow> (let (r, g) = getRandomValues 512 rng in (Buf (Uint8Array r), g))
                           | Some s \<Rightarrow> (s, rng));
          iterations' = (case iterations opts of None \<Rightarrow> 999 | Some i \<Rightarrow> i);
          keyLengthByte' = (case keyLengthByte opts of None \<Rightarrow> 48 | Some n \<Rightarrow> n)
      in case importKey (str2ab secret' None) ''PBKDF2'' False [''deriveBits''] of
           Inl e \<Rightarrow> (Inl e, rng1)
         | Inr deriveBitsKey \<Rightarrow>
            (let saltBuffer = (case salt' of Str s \<Rightarrow> str2ab s None | Buf b \<Rightarrow> b)
             in case subtle_deriveBits env hash' saltBuffer iterations' deriveBitsKey (keyLengthByte' * 8) of
                  Inl e \<Rightarrow> (Inl e, rng1)
                | Inr derivedBits \<Rightarrow>
                   (let derivedKey = slice derivedBits 0 (Some 32);
                        iv' = slice derivedBits (- 16) None
                    in case importKey (ArrayBuffer derivedKey) ''AES-CBC'' True [''encrypt'', ''decrypt''] of
                         Inl e \<Rightarrow> (Inl e, rng1)
                       | Inr secretKey \<Rightarrow>
                          (let (r2, rng2) = getRandomValues 512 rng1
                           in case subtle_deriveBits env hash' (Uint8Array r2) (iterations' / 2)
                                     deriveBitsKey (32 * 8) of
                                Inl e \<Rightarrow> (Inl e, rng2)
                              | Inr secretSalt' \<Rightarrow>
                                  (Inr \<lparr>key = secretKey, iv = ArrayBuffer iv',
                                        secretSalt = Some (Buf (ArrayBuffer secretSalt'))\<rparr>, rng2)))))"

definition trapdoor :: "webcrypto \<Rightarrow> jsdata \<Rightarrow> keyobject \<Rightarrow> error + jsstring" where
  "trapdoor env query secretKey = digest env query \<lparr>hash = None, salt = secretSalt secretKey\<rparr>"

text \<open>
  \<open>buildIndex\<close>. A document's data is a primitive string (\<open>typeof\<close> gives
  \<open>"string"\<close>) or some other value. Of another value \<open>x\<close> the default extractor sees
  one thing only, the outcome of \<open>new Set(x.split(" "))\<close>, which the value carries with
  it: the elements of the set in iteration order when the value has a \<open>split\<close> method of
  its own (a \<open>String\<close> object, say), the TypeError that is raised when it has none or is
  \<open>null\<close> or \<open>undefined\<close>. On a string, \<open>e.split(" ")\<close> cuts at every single space
  and \<open>new Set(...)\<close> keeps the first occurrence of each token, in order. The index table
  is an object used as a dictionary from trapdoor to the array of pointers (a trapdoor is a
  string of hexadecimal digits, so it never names a property that objects inherit).
\<close>

datatype 'a docdata = TextData jsstring | OtherData 'a "error + jsdata list"

record 'a document =
  pointer :: jsstring
  data :: "'a docdata"

type_synonym indextable = "jsstring \<rightharpoonup> jsstring list"

fun split_space :: "jsstring \<Rightarrow> jsstring \<Rightarrow> jsstring list" where
  \<comment> \<open>\<open>split_space cur s\<close>: the tokens of \<open>s\<close>, the first one prefixed by \<open>cur\<close>\<close>
  "split_space cur [] = [cur]"
| "split_space cur (c # cs) = (if c = 0x20 then cur # split_space [] cs else split_space (cur @ [c]) cs)"

fun new_Set :: "'b list \<Rightarrow> 'b list \<Rightarrow> 'b list" where
  \<comment> \<open>\<open>new_Set seen xs\<close>: \<open>seen\<close> extended by the new elements of \<open>xs\<close>, in order of first occurrence\<close>
  "new_Set seen [] = seen"
| "new_Set seen (x # xs) = (if x \<in> set seen then new_Set seen xs else new_Set (seen @ [x]) xs)"

definition default_getKeywords :: "'a docdata \<Rightarrow> error + jsdata list" where
  \<comment> \<open>\<open>(e) => new Set(e.split(" "))\<close>\<close>
  "default_getKeywords e =
     (case e of
        TextData s \<Rightarrow> Inr (map Str (new_Set [] (split_space [] s)))
      | OtherData x outcome \<Rightarrow> outcome)"

definition resolve_getKeywords ::
  "('a docdata \<Rightarrow> jsdata list) option \<Rightarrow> 'a document list \<Rightarrow> 'a docdata \<Rightarrow> error + jsdata list" where
  \<comment> \<open>what \<open>getKeywords(doc.data)\<close> does after the fallback of the first two lines of \<open>buildIndex\<close>\<close>
  "resolve_getKeywords getKeywords documents =
     (case getKeywords of
        Some f \<Rightarrow> (\<lambda>e. Inr (f e))
      | None \<Rightarrow>
          (case documents of
             [] \<Rightarrow> (\<lambda>e. Inl (TypeError ''getKeywords is not a function''))
           | d # ds \<Rightarrow>
               (case data d of
                  TextData s \<Rightarrow> default_getKeywords
                | OtherData x outcome \<Rightarrow>
                    (\<lambda>e. Inl (TypeError ''getKeywords is not a function'')))))"

fun index_keywords ::
  "webcrypto \<Rightarrow> keyobject \<Rightarrow> jsstring \<Rightarrow> jsdata list \<Rightarrow> indextable \<Rightarrow> error + indextable" where
  "index_keywords env secretKey p [] indexTable = Inr indexTable"
| "index_keywords env secretKey p (keyword # keywords) indexTable =
     (case digest env keyword \<lparr>hash = None, salt = secretSalt secretKey\<rparr> of
        Inl e \<Rightarrow> Inl e
      | Inr td \<Rightarrow>
          index_keywords env secretKey p keywords
            (indexTable(td \<mapsto> (case indexTable td of None \<Rightarrow> [] | Some ps \<Rightarrow> ps) @ [p])))"

fun index_documents ::
  "webcrypto \<Rightarrow> keyobject \<Rightarrow> ('a docdata \<Rightarrow> error + jsdata list) \<Rightarrow> 'a document list
     \<Rightarrow> indextable \<Rightarrow> error + indextable" where
  "index_documents env secretKey gk [] indexTable = Inr indexTable"
| "index_documents env secretKey gk (doc # docs) indexTable =
     (case gk (data doc) of
        Inl e \<Rightarrow> Inl e
      | Inr keywords \<Rightarrow>
          (case index_keywords env secretKey (pointer doc) keywords indexTable of
             Inl e \<Rightarrow> Inl e
           | Inr indexTable' \<Rightarrow> index_documents env secretKey gk docs indexTable'))"

definition buildIndex ::
  "webcrypto \<Rightarrow> 'a document list \<Rightarrow> keyobject \<Rightarrow> ('a docdata \<Rightarrow> jsdata list) option
     \<Rightarrow> error + indextable" where
  "buildIndex env documents secretKey getKeywords =
     index_documents env secretKey (resolve_getKeywords getKeywords documents) documents Map.empty"

section \<open>Notions used by the statements\<close>

definition scalar :: "nat \<Rightarrow> bool" where
  \<comment> \<open>a Unicode scalar value: a code point that is not a surrogate\<close>
  "scalar c = (c < 0x110000 \<and> (c < 0xD800 \<or> 0xE000 \<le> c))"

fun well_formed :: "jsstring \<Rightarrow> bool" where
  \<comment> \<open>well-formed UTF-16: every surrogate is part of a pair\<close>
  "well_formed (u # l # rest) =
     (if is_high u then is_low l \<and> well_formed rest else \<not> is_low u \<and> well_formed (l # rest))"
| "well_formed [u] = (\<not> is_high u \<and> \<not> is_low u)"
| "well_formed [] = True"

fun copied :: "bufsrc \<Rightarrow> bytes" where
  \<comment> \<open>what \<open>abConcat\<close> writes for one argument\<close>
  "copied (Uint8Array bs) = bs"
| "copied (ArrayBuffer bs) = replicate (length bs) 0"

definition cipher_ok :: "webcrypto \<Rightarrow> bool" where
  \<comment> \<open>AES-CBC decryption inverts encryption under the same key and IV\<close>
  "cipher_ok env =
     (\<forall>k i p. (length k = 16 \<or> length k = 24 \<or> length k = 32) \<and> length i = 16
        \<longrightarrow> aes_cbc_decrypt env k i (aes_cbc_encrypt env k i p) = Some p)"

definition pbkdf2_ok :: "webcrypto \<Rightarrow> bool" where
  \<comment> \<open>PBKDF2 returns as many bits as were asked for\<close>
  "pbkdf2_ok env =
     (\<forall>h pw s its len out. pbkdf2_prim env h pw s its len = Inr out \<longrightarrow> length out * 8 = len)"

definition valid_key :: "keyobject \<Rightarrow> bool" where
  \<comment> \<open>key material as \<open>genSecretKey\<close> returns it: an AES-CBC key for both directions, a 16-byte IV\<close>
  "valid_key k =
     (algorithm (key k) = ''AES-CBC'' \<and> ''encrypt'' \<in> set (usages (key k))
      \<and> ''decrypt'' \<in> set (usages (key k))
      \<and> (length (raw (key k)) = 16 \<or> length (raw (key k)) = 24 \<or> length (raw (key k)) = 32)
      \<and> byteLength (iv k) = 16)"

definition hash_name :: "keygen_options \<Rightarrow> string" where
  \<comment> \<open>the options of \<open>genSecretKey\<close> after the defaults\<close>
  "hash_name opts = (case hash opts of None \<Rightarrow> ''SHA-256'' | Some h \<Rightarrow> h)"

definition iteration_count :: "keygen_options \<Rightarrow> rat" where
  "iteration_count opts = (case iterations opts of None \<Rightarrow> 999 | Some i \<Rightarrow> i)"

definition key_length :: "keygen_options \<Rightarrow> nat" where
  "key_length opts = (case keyLengthByte opts of None \<Rightarrow> 48 | Some n \<Rightarrow> n)"

definition passphrase_bytes :: "jsstring option \<Rightarrow> bytes" where
  \<comment> \<open>the key data of \<open>deriveBitsKey\<close>: \<open>str2ab(secret)\<close>, read with the default encoding\<close>
  "passphrase_bytes secret =
     contents (str2ab (case secret of None \<Rightarrow> js ''PASSPHRASE'' | Some s \<Rightarrow> s) None)"

definition main_salt :: "keygen_options \<Rightarrow> entropy \<Rightarrow> bytes" where
  \<comment> \<open>the salt of the first derivation: the option, or the first 512 random bytes\<close>
  "main_salt opts rng =
     (case salt opts of
        None \<Rightarrow> map rng [0..<512]
      | Some (Str s) \<Rightarrow> contents (str2ab s None)
      | Some (Buf b) \<Rightarrow> contents b)"

definition fresh_salt :: "keygen_options \<Rightarrow> entropy \<Rightarrow> bytes" where
  \<comment> \<open>the salt of the second derivation: the next 512 random bytes\<close>
  "fresh_salt opts rng =
     (case salt opts of
        None \<Rightarrow> map rng [512..<1024]
      | Some s \<Rightarrow> map rng [0..<512])"

definition key_material :: "bytes \<Rightarrow> bytes \<Rightarrow> keyobject" where
  \<comment> \<open>the object \<open>genSecretKey\<close> returns, from the derived bits and the derived secretSalt\<close>
  "key_material bits ss =
     \<lparr>key = \<lparr>algorithm = ''AES-CBC'', raw = take 32 bits, extractable = True,
             usages = [''encrypt'', ''decrypt'']\<rparr>,
      iv = ArrayBuffer (drop (length bits - 16) bits),
      secretSalt = Some (Buf (ArrayBuffer ss))\<rparr>"

definition entries :: "indextable \<Rightarrow> jsstring \<Rightarrow> jsstring list" where
  \<comment> \<open>the pointers stored under a trapdoor, none when the table has no such key\<close>
  "entries T t = (case T t of None \<Rightarrow> [] | Some ps \<Rightarrow> ps)"

definition pointers_for ::
  "webcrypto \<Rightarrow> keyobject \<Rightarrow> ('a docdata \<Rightarrow> error + jsdata list) \<Rightarrow> 'a document list
     \<Rightarrow> jsstring \<Rightarrow> jsstring list" where
  \<comment> \<open>the pointers of the documents, in processing order, once for every keyword of the
      document whose trapdoor is \<open>t\<close>\<close>
  "pointers_for env k gk docs t =
     concat (map (\<lambda>d. case gk (data d) of
                         Inl e \<Rightarrow> []
                       | Inr ws \<Rightarrow> map (\<lambda>w. pointer d) (filter (\<lambda>w. trapdoor env w k = Inr t) ws))
                 docs)"

subsection \<open>The keywords of a document, stated apart from the code\<close>

text \<open>
  The space-separated tokens of a string: a space starts a new token, any other character
  extends the token it stands in. Of a list, the distinct elements in order of first
  occurrence. With no extractor given, the keywords of a text are its distinct tokens, and
  those of another value are what its own \<open>split\<close> yields.
\<close>

fun space_tokens :: "jsstring \<Rightarrow> jsstring list" where
  "space_tokens [] = [[]]"
| "space_tokens (c # cs) =
     (if c = 0x20 then [] # space_tokens cs
      else (case space_tokens cs of
              [] \<Rightarrow> [[c]]
            | t # ts \<Rightarrow> (c # t) # ts))"

fun join_spaces :: "jsstring list \<Rightarrow> jsstring" where
  "join_spaces [] = []"
| "join_spaces [t] = t"
| "join_spaces (t # u # ts) = t @ 0x20 # join_spaces (u # ts)"

fun first_occurrences :: "'b list \<Rightarrow> 'b list" where
  "first_occurrences [] = []"
| "first_occurrences (x # xs) = x # removeAll x (first_occurrences xs)"

fun default_keywords :: "'a docdata \<Rightarrow> jsdata list" where
  "default_keywords (TextData s) = map Str (first_occurrences (space_tokens s))"
| "default_keywords (OtherData x (Inr ws)) = ws"
| "default_keywords (OtherData x (Inl e)) = []"

definition postings ::
  "webcrypto \<Rightarrow> keyobject \<Rightarrow> ('a docdata \<Rightarrow> jsdata list) \<Rightarrow> 'a document list
     \<Rightarrow> jsstring \<Rightarrow> jsstring list" where
  \<comment> \<open>for the keywords \<open>kw\<close> of each document: the pointers of the documents, in
      processing order, once for every keyword of the document whose trapdoor is \<open>t\<close>\<close>
  "postings env k kw docs t =
     concat (map (\<lambda>d. map (\<lambda>w. pointer d) (filter (\<lambda>w. trapdoor env w k = Inr t) (kw (data d))))
                 docs)"

subsection \<open>A small platform to run the code on\<close>

text \<open>
  Simple stand-ins for the primitives, used to evaluate the functions on concrete inputs:
  the hash returns its input, PBKDF2 returns the leading bytes of salt and password (and
  rejects a length that is zero or not a multiple of 8, and an iteration count below 1), and
  the cipher pads to a multiple of 16 bytes as PKCS#7 does and complements every byte.
\<close>

definition pkcs7_pad :: "bytes \<Rightarrow> bytes" where
  "pkcs7_pad p = p @ replicate (16 - length p mod 16) (of_nat (16 - length p mod 16))"

definition pkcs7_unpad :: "bytes \<Rightarrow> bytes option" where
  "pkcs7_unpad c =
     (if c = [] \<or> length c mod 16 \<noteq> 0 then None
      else let n = unat (last c)
           in if n = 0 \<or> 16 < n \<or> drop (length c - n) c \<noteq> replicate n (last c) then None
              else Some (take (length c - n) c))"

definition demo_webcrypto :: webcrypto where
  "demo_webcrypto =
     \<lparr>hash_prim = (\<lambda>h. if h = ''SHA-256'' then Some (\<lambda>bs. bs) else None),
      pbkdf2_prim = (\<lambda>h pw s its len.
         if its < 1 \<or> len = 0 \<or> len mod 8 \<noteq> 0 then Inl OperationError
         else Inr (take (len div 8) (s @ pw @ replicate (len div 8) 0))),
      aes_cbc_encrypt = (\<lambda>k i p. map NOT (pkcs7_pad p)),
      aes_cbc_decrypt = (\<lambda>k i c. pkcs7_unpad (map NOT c))\<rparr>"

definition demo_key :: keyobject where
  "demo_key =
     \<lparr>key = \<lparr>algorithm = ''AES-CBC'', raw = replicate 32 0, extractable = True,
             usages = [''encrypt'', ''decrypt'']\<rparr>,
      iv = ArrayBuffer (replicate 16 0),
      secretSalt = Some (Buf (Uint8Array [1, 2]))\<rparr>"

section \<open>Properties of the encodings\<close>

lemma low_byte_of_nat: "k < 256 \<Longrightarrow> unat (ucast (of_nat k :: 16 word) :: byte) = k"
  by (simp add: unsigned_ucast_eq unsigned_of_nat take_bit_nat_eq_self)

lemma unhex_hexdigit: "n < 16 \<Longrightarrow> unhex (hexdigit n) = Some n"
proof (cases "n < 10")
  case True
  then have "unat (ucast (of_nat (48 + n) :: 16 word) :: byte) = 48 + n"
    by (intro low_byte_of_nat) simp
  with True show ?thesis
    by (simp add: unhex_def hexdigit_def Let_def del: of_nat_add)
next
  case False
  assume "n < 16"
  then have "unat (ucast (of_nat (87 + n) :: 16 word) :: byte) = 87 + n"
    by (intro low_byte_of_nat) simp
  with False \<open>n < 16\<close> show ?thesis
    by (simp add: unhex_def hexdigit_def Let_def del: of_nat_add)
qed

lemma unat_byte_less: "unat (b :: byte) < 256"
  using unsigned_less [of b] by simp

lemma hex_decode_append: "hex_decode (hex_encode bs @ t) = bs @ hex_decode t"
proof (induction bs)
  case Nil
  show ?case by simp
next
  case (Cons b bs)
  have d: "unat b div 16 < 16"
    using unat_byte_less [of b] by simp
  have m: "unat b mod 16 < 16" by simp
  show ?case
    using Cons.IH by (simp add: unhex_hexdigit [OF d] unhex_hexdigit [OF m])
qed

lemma hex_decode_encode: "hex_decode (hex_encode bs) = bs"
  using hex_decode_append [of bs "[]"] by simp

lemma latin1_roundtrip: "map ucast (map ucast (bs :: bytes) :: jsstring) = bs"
  by (induction bs) (simp_all add: ucast_down_ucast_id is_down)

lemma unat_of_nat_byte: "x < 256 \<Longrightarrow> unat (of_nat x :: byte) = x"
  by (simp add: unsigned_of_nat take_bit_nat_eq_self)

lemma unat_add_byte: "a + x < 256 \<Longrightarrow> unat (of_nat a + of_nat x :: byte) = a + x"
  using unat_of_nat_byte [of "a + x"] by simp

lemma unat_lead_bytes:
  "x < 64 \<Longrightarrow> unat (128 + of_nat x :: byte) = 128 + x"
  "x < 32 \<Longrightarrow> unat (192 + of_nat x :: byte) = 192 + x"
  "x < 16 \<Longrightarrow> unat (224 + of_nat x :: byte) = 224 + x"
  "x < 5 \<Longrightarrow> unat (240 + of_nat x :: byte) = 240 + x"
  using unat_add_byte [of 128 x] unat_add_byte [of 192 x] unat_add_byte [of 224 x]
    unat_add_byte [of 240 x] by simp_all

text \<open>Decoding the bytes of one code point, by the number of bytes.\<close>

lemma utf8_dec_1:
  assumes "c < 0x80"
  shows "utf8_dec 0 0 0x80 0xBF (map unat (utf8_bytes c) @ rest) = c # utf8_dec 0 0 0x80 0xBF rest"
  using assms by (simp add: utf8_bytes_def unat_of_nat_byte)

lemma utf8_dec_2:
  assumes "0x80 \<le> c" "c < 0x800"
  shows "utf8_dec 0 0 0x80 0xBF (map unat (utf8_bytes c) @ rest) = c # utf8_dec 0 0 0x80 0xBF rest"
proof -
  define q where "q = c div 64"
  define r where "r = c mod 64"
  have c: "c = q * 64 + r" by (simp add: q_def r_def)
  have q: "2 \<le> q" "q < 32" using assms by (simp_all add: q_def)
  have r: "r < 64" by (simp add: r_def)
  have b: "map unat (utf8_bytes c) = [0xC0 + q, 0x80 + r]"
    using assms q r by (simp add: utf8_bytes_def unat_lead_bytes q_def [symmetric] r_def [symmetric])
  show ?thesis
    unfolding b using q r by (simp add: c)
qed

lemma three_byte_step:
  assumes "q < 16" "m < 64" "r < 64" "q = 0 \<longrightarrow> 32 \<le> m" "q = 13 \<longrightarrow> m < 32"
  shows "utf8_dec 0 0 0x80 0xBF ((0xE0 + q) # (0x80 + m) # (0x80 + r) # rest)
       = ((q * 64 + m) * 64 + r) # utf8_dec 0 0 0x80 0xBF rest"
proof -
  have 1: "utf8_dec 0 0 0x80 0xBF ((0xE0 + q) # (0x80 + m) # (0x80 + r) # rest)
      = utf8_dec 2 q (if q = 0 then 0xA0 else 0x80) (if q = 13 then 0x9F else 0xBF)
          ((0x80 + m) # (0x80 + r) # rest)"
    using assms(1) by simp
  have 2: "utf8_dec 2 q (if q = 0 then 0xA0 else 0x80) (if q = 13 then 0x9F else 0xBF)
          ((0x80 + m) # (0x80 + r) # rest) = utf8_dec 1 (q * 64 + m) 0x80 0xBF ((0x80 + r) # rest)"
    using assms(2,4,5) by auto
  have 3: "utf8_dec 1 (q * 64 + m) 0x80 0xBF ((0x80 + r) # rest)
      = ((q * 64 + m) * 64 + r) # utf8_dec 0 0 0x80 0xBF rest"
    using assms(3) by simp
  show ?thesis by (simp only: 1 2 3)
qed

lemma four_byte_step:
  assumes "q < 5" "n < 64" "m < 64" "r < 64" "q = 0 \<longrightarrow> 16 \<le> n" "q = 4 \<longrightarrow> n < 16"
  shows "utf8_dec 0 0 0x80 0xBF ((0xF0 + q) # (0x80 + n) # (0x80 + m) # (0x80 + r) # rest)
       = (((q * 64 + n) * 64 + m) * 64 + r) # utf8_dec 0 0 0x80 0xBF rest"
proof -
  have 1: "utf8_dec 0 0 0x80 0xBF ((0xF0 + q) # (0x80 + n) # (0x80 + m) # (0x80 + r) # rest)
      = utf8_dec 3 q (if q = 0 then 0x90 else 0x80) (if q = 4 then 0x8F else 0xBF)
          ((0x80 + n) # (0x80 + m) # (0x80 + r) # rest)"
    using assms(1) by simp
  have 2: "utf8_dec 3 q (if q = 0 then 0x90 else 0x80) (if q = 4 then 0x8F else 0xBF)
          ((0x80 + n) # (0x80 + m) # (0x80 + r) # rest)
      = utf8_dec 2 (q * 64 + n) 0x80 0xBF ((0x80 + m) # (0x80 + r) # rest)"
    using assms(2,5,6) by auto
  have 3: "utf8_dec 2 (q * 64 + n) 0x80 0xBF ((0x80 + m) # (0x80 + r) # rest)
      = utf8_dec 1 ((q * 64 + n) * 64 + m) 0x80 0xBF ((0x80 + r) # rest)"
    using assms(3) by simp
  have 4: "utf8_dec 1 ((q * 64 + n) * 64 + m) 0x80 0xBF ((0x80 + r) # rest)
      = (((q * 64 + n) * 64 + m) * 64 + r) # utf8_dec 0 0 0x80 0xBF rest"
    using assms(4) by simp
  show ?thesis by (simp only: 1 2 3 4)
qed

lemma utf8_dec_3:
  assumes "0x800 \<le> c" "c < 0x10000" "c < 0xD800 \<or> 0xE000 \<le> c"
  shows "utf8_dec 0 0 0x80 0xBF (map unat (utf8_bytes c) @ rest) = c # utf8_dec 0 0 0x80 0xBF rest"
proof -
  define q where "q = c div 4096"
  define m where "m = c div 64 mod 64"
  define r where "r = c mod 64"
  have q': "q = c div 64 div 64" by (simp add: q_def div_mult2_eq [symmetric])
  have c: "(q * 64 + m) * 64 + r = c" unfolding q' m_def r_def by simp
  have q: "q < 16" using assms by (simp add: q_def)
  have m: "m < 64" by (simp add: m_def)
  have r: "r < 64" by (simp add: r_def)
  have lo: "q = 0 \<longrightarrow> 32 \<le> m" using assms c m r by auto
  have hi: "q = 13 \<longrightarrow> m < 32" using assms c m r by auto
  have b: "map unat (utf8_bytes c) = [0xE0 + q, 0x80 + m, 0x80 + r]"
    using assms q m r
    by (simp add: utf8_bytes_def unat_lead_bytes q_def [symmetric] m_def [symmetric] r_def [symmetric])
  show ?thesis
    by (simp only: b append_Cons append_Nil three_byte_step [OF q m r lo hi] c)
qed

lemma utf8_dec_4:
  assumes "0x10000 \<le> c" "c < 0x110000"
  shows "utf8_dec 0 0 0x80 0xBF (map unat (utf8_bytes c) @ rest) = c # utf8_dec 0 0 0x80 0xBF rest"
proof -
  define q where "q = c div 262144"
  define n where "n = c div 4096 mod 64"
  define m where "m = c div 64 mod 64"
  define r where "r = c mod 64"
  have q': "q = c div 64 div 64 div 64" by (simp add: q_def div_mult2_eq [symmetric])
  have n': "n = c div 64 div 64 mod 64" by (simp add: n_def div_mult2_eq [symmetric])
  have c: "((q * 64 + n) * 64 + m) * 64 + r = c" unfolding q' n' m_def r_def by simp
  have q: "q < 5" using assms by (simp add: q_def)
  have n: "n < 64" by (simp add: n_def)
  have m: "m < 64" by (simp add: m_def)
  have r: "r < 64" by (simp add: r_def)
  have lo: "q = 0 \<longrightarrow> 16 \<le> n" using assms c n m r by auto
  have hi: "q = 4 \<longrightarrow> n < 16" using assms c n m r by auto
  have b: "map unat (utf8_bytes c) = [0xF0 + q, 0x80 + n, 0x80 + m, 0x80 + r]"
    using assms q n m r
    by (simp add: utf8_bytes_def unat_lead_bytes q_def [symmetric] n_def [symmetric]
        m_def [symmetric] r_def [symmetric])
  show ?thesis
    by (simp only: b append_Cons append_Nil four_byte_step [OF q n m r lo hi] c)
qed

lemma utf8_dec_scalar:
  assumes "scalar c"
  shows "utf8_dec 0 0 0x80 0xBF (map unat (utf8_bytes c) @ rest) = c # utf8_dec 0 0 0x80 0xBF rest"
proof -
  consider "c < 0x80" | "0x80 \<le> c" "c < 0x800" | "0x800 \<le> c" "c < 0x10000" | "0x10000 \<le> c"
    by linarith
  then show ?thesis
  proof cases
    case 1 then show ?thesis by (rule utf8_dec_1)
  next
    case 2 then show ?thesis by (rule utf8_dec_2)
  next
    case 3 then show ?thesis using assms by (intro utf8_dec_3) (auto simp: scalar_def)
  next
    case 4 then show ?thesis using assms by (intro utf8_dec_4) (auto simp: scalar_def)
  qed
qed

lemma utf8_dec_concat:
  "list_all scalar cs \<Longrightarrow> utf8_dec 0 0 0x80 0xBF (map unat (concat (map utf8_bytes cs))) = cs"
  by (induction cs) (simp_all add: utf8_dec_scalar)

lemma pair_units:
  assumes "is_high u" "is_low l"
  shows "utf16_units (0x10000 + (unat u - 0xD800) * 0x400 + (unat l - 0xDC00)) = [u, l]"
proof -
  define a where "a = unat u - 0xD800"
  define b where "b = unat l - 0xDC00"
  have u: "unat u = 0xD800 + a" using assms by (simp add: a_def is_high_def)
  have l: "unat l = 0xDC00 + b" using assms by (simp add: b_def is_low_def)
  have b: "b < 0x400" using assms unfolding b_def is_low_def by arith
  have "of_nat (0xD800 + a) = u" "of_nat (0xDC00 + b) = l"
    unfolding u [symmetric] l [symmetric] by simp_all
  then show ?thesis
    using b by (simp add: utf16_units_def a_def [symmetric] b_def [symmetric])
qed

lemma code_points_roundtrip:
  "well_formed s \<Longrightarrow> list_all scalar (code_points s) \<and> concat (map utf16_units (code_points s)) = s"
proof (induction s rule: code_points.induct)
  case (1 u l rest)
  show ?case
  proof (cases "is_high u")
    case True
    with 1 have low: "is_low l" and wf: "well_formed rest" by simp_all
    have "scalar (0x10000 + (unat u - 0xD800) * 0x400 + (unat l - 0xDC00))"
      using True low unfolding scalar_def is_high_def is_low_def by arith
    then show ?thesis
      using True low 1 wf by (simp add: pair_units)
  next
    case False
    with 1 have nl: "\<not> is_low u" and wf: "well_formed (l # rest)" by simp_all
    have "scalar (unat u)" "utf16_units (unat u) = [u]"
      using False nl unsigned_less [of u, where 'a = nat]
      by (auto simp add: scalar_def is_high_def is_low_def utf16_units_def)
    then show ?thesis
      using False nl 1 wf by (simp add: bmp_point_def)
  qed
next
  case (2 u)
  then have "scalar (unat u)" "utf16_units (unat u) = [u]"
    using unsigned_less [of u, where 'a = nat]
    by (auto simp add: scalar_def is_high_def is_low_def utf16_units_def)
  then show ?case using 2 by (simp add: bmp_point_def)
next
  case 3
  show ?case by simp
qed

lemma utf8_roundtrip: "well_formed s \<Longrightarrow> utf8_decode (utf8_encode s) = s"
  using code_points_roundtrip [of s] by (simp add: utf8_decode_def utf8_encode_def utf8_dec_concat)

text \<open>
  \<open>abConcat\<close> sizes the result as the sum of the lengths, so every \<open>set\<close> stays in
  range; the result holds what each argument contributes, in order.
\<close>

lemma length_copied: "length (copied b) = byteLength b"
  by (cases b) simp_all

lemma total_size:
  "fold (\<lambda>buf totalSize. totalSize + byteLength buf) buffers n = n + sum_list (map byteLength buffers)"
  by (induction buffers arbitrary: n) simp_all

lemma set_in_zeros:
  "typed_array_set (pre @ replicate (byteLength b + n) 0) b (length pre)
     = (pre @ copied b) @ replicate n 0"
  by (cases b) (simp_all add: replicate_add)

lemma copy_loop:
  "fst (fold (\<lambda>buffer (res, offset). (typed_array_set res buffer offset, offset + byteLength buffer))
          buffers (pre @ replicate (sum_list (map byteLength buffers) + k) 0, length pre))
     = pre @ concat (map copied buffers) @ replicate k 0"
proof (induction buffers arbitrary: pre)
  case Nil
  show ?case by simp
next
  case (Cons b buffers)
  have "typed_array_set (pre @ replicate (sum_list (map byteLength (b # buffers)) + k) 0) b (length pre)
      = (pre @ copied b) @ replicate (sum_list (map byteLength buffers) + k) 0"
    using set_in_zeros [of pre b "sum_list (map byteLength buffers) + k"]
    by (simp add: add.assoc)
  moreover have "length pre + byteLength b = length (pre @ copied b)"
    by (simp add: length_copied)
  ultimately show ?case
    using Cons.IH [of "pre @ copied b"] by simp
qed

lemma abConcat_copied: "abConcat buffers = Uint8Array (concat (map copied buffers))"
  using copy_loop [where buffers = buffers and k = 0 and pre = "[]"]
  by (simp add: abConcat_def total_size)

lemma abConcat_two: "abConcat [a, b] = Uint8Array (copied a @ copied b)"
  by (simp add: abConcat_copied)

section \<open>The index loop\<close>

lemma digest_concatenates:
  "digest env dat opts =
     (case hash_prim env (case hash opts of None \<Rightarrow> ''SHA-256'' | Some h \<Rightarrow> h) of
        None \<Rightarrow> Inl NotSupportedError
      | Some f \<Rightarrow>
          Inr (hex_encode (f (copied (case dat of Str s \<Rightarrow> Uint8Array (utf8_encode s) | Buf b \<Rightarrow> b)
                @ copied (case salt opts of
                            None \<Rightarrow> Uint8Array (utf8_encode (js ''DEFAULT-SALT''))
                          | Some (Str s) \<Rightarrow> Uint8Array (utf8_encode s)
                          | Some (Buf b) \<Rightarrow> b)))))"
  by (simp add: digest_def abConcat_two subtle_digest_def str2ab_def buffer_from_string_def
      ab2str_def buffer_toString_def Let_def split: option.splits jsdata.splits)

lemma index_keywords_entries:
  "index_keywords env k p ws T = Inr T' \<Longrightarrow>
     entries T' t = entries T t @ map (\<lambda>w. p) (filter (\<lambda>w. trapdoor env w k = Inr t) ws)
     \<and> (T' t = None \<longleftrightarrow> T t = None \<and> filter (\<lambda>w. trapdoor env w k = Inr t) ws = [])"
proof (induction ws arbitrary: T)
  case Nil
  then show ?case by simp
next
  case (Cons w ws)
  from Cons.prems obtain td where
    td: "digest env w \<lparr>hash = None, salt = secretSalt k\<rparr> = Inr td"
    and rest: "index_keywords env k p ws (T(td \<mapsto> (case T td of None \<Rightarrow> [] | Some ps \<Rightarrow> ps) @ [p])) = Inr T'"
    by (auto split: sum.splits)
  from Cons.IH [OF rest] td show ?case
    by (auto simp add: entries_def trapdoor_def split: option.splits)
qed

lemma index_documents_entries:
  "index_documents env k gk docs T = Inr T' \<Longrightarrow>
     entries T' t = entries T t @ pointers_for env k gk docs t
     \<and> (T' t = None \<longleftrightarrow> T t = None \<and> pointers_for env k gk docs t = [])"
proof (induction docs arbitrary: T)
  case Nil
  then show ?case by (simp add: pointers_for_def)
next
  case (Cons d docs)
  from Cons.prems obtain ws T1 where
    ws: "gk (data d) = Inr ws"
    and T1: "index_keywords env k (pointer d) ws T = Inr T1"
    and rest: "index_documents env k gk docs T1 = Inr T'"
    by (auto split: sum.splits)
  from index_keywords_entries [OF T1, of t] Cons.IH [OF rest] ws show ?case
    by (simp add: pointers_for_def)
qed

lemma buildIndex_lookup:
  assumes "buildIndex env docs k g = Inr T"
  shows "T t = (if pointers_for env k (resolve_getKeywords g docs) docs t = [] then None
                else Some (pointers_for env k (resolve_getKeywords g docs) docs t))"
proof -
  from assms have "index_documents env k (resolve_getKeywords g docs) docs Map.empty = Inr T"
    by (simp add: buildIndex_def)
  from index_documents_entries [OF this, of t] show ?thesis
    by (cases "T t") (simp_all add: entries_def)
qed

lemma index_documents_keywords:
  "index_documents env k gk docs T = Inr T' \<Longrightarrow> d \<in> set docs \<Longrightarrow> \<exists>ws. gk (data d) = Inr ws"
proof (induction docs arbitrary: T)
  case Nil
  then show ?case by simp
next
  case (Cons a docs)
  then show ?case by (auto split: sum.splits)
qed

lemma index_keywords_trapdoor:
  "index_keywords env k p ws T = Inr T' \<Longrightarrow> w \<in> set ws \<Longrightarrow> \<exists>t. trapdoor env w k = Inr t"
proof (induction ws arbitrary: T)
  case Nil
  then show ?case by simp
next
  case (Cons a ws)
  then show ?case by (auto simp add: trapdoor_def split: sum.splits)
qed

lemma index_documents_trapdoor:
  "index_documents env k gk docs T = Inr T' \<Longrightarrow> d \<in> set docs \<Longrightarrow> gk (data d) = Inr ws
     \<Longrightarrow> w \<in> set ws \<Longrightarrow> \<exists>t. trapdoor env w k = Inr t"
proof (induction docs arbitrary: T)
  case Nil
  then show ?case by simp
next
  case (Cons a docs)
  from Cons.prems(1) obtain ws' T1 where
    ws': "gk (data a) = Inr ws'"
    and T1: "index_keywords env k (pointer a) ws' T = Inr T1"
    and rest: "index_documents env k gk docs T1 = Inr T'"
    by (auto split: sum.splits)
  show ?case
  proof (cases "d = a")
    case True
    with ws' Cons.prems(3) have "ws' = ws" by simp
    with index_keywords_trapdoor [OF T1] Cons.prems(4) show ?thesis by simp
  next
    case False
    with Cons.prems(2) have "d \<in> set docs" by simp
    from Cons.IH [OF rest this Cons.prems(3) Cons.prems(4)] show ?thesis .
  qed
qed

lemma pointers_for_member:
  assumes "d \<in> set docs" "gk (data d) = Inr ws" "w \<in> set ws" "trapdoor env w k = Inr t"
  shows "pointer d \<in> set (pointers_for env k gk docs t)"
  using assms by (force simp add: pointers_for_def)

text \<open>The default extractor yields the distinct space-separated tokens.\<close>

lemma space_tokens_nonempty: "space_tokens s \<noteq> []"
  by (induction s) (simp_all split: list.splits)

lemma tokens_join: "join_spaces (space_tokens s) = s"
proof (induction s)
  case Nil
  show ?case by simp
next
  case (Cons c cs)
  obtain t ts where ts: "space_tokens cs = t # ts"
    using space_tokens_nonempty [of cs] by (cases "space_tokens cs") simp_all
  show ?case
    using Cons ts by (cases ts) simp_all
qed

lemma tokens_no_space: "t \<in> set (space_tokens s) \<Longrightarrow> 0x20 \<notin> set t"
proof (induction s arbitrary: t)
  case Nil
  then show ?case by simp
next
  case (Cons c cs)
  obtain u us where us: "space_tokens cs = u # us"
    using space_tokens_nonempty [of cs] by (cases "space_tokens cs") simp_all
  from Cons.IH [of u] us have u: "0x20 \<notin> set u" by simp
  from Cons.prems us u Cons.IH show ?case
    by (auto split: if_splits)
qed

lemma split_space_tokens:
  "split_space cur s = (case space_tokens s of [] \<Rightarrow> [cur] | t # ts \<Rightarrow> (cur @ t) # ts)"
proof (induction s arbitrary: cur)
  case Nil
  show ?case by simp
next
  case (Cons c cs)
  obtain t ts where ts: "space_tokens cs = t # ts"
    using space_tokens_nonempty [of cs] by (cases "space_tokens cs") simp_all
  show ?case
    using Cons [of "[]"] Cons [of "cur @ [c]"] ts by simp
qed

lemma split_space_empty: "split_space [] s = space_tokens s"
  using space_tokens_nonempty [of s] by (simp add: split_space_tokens split: list.splits)

lemma new_Set_first_occurrences:
  "new_Set seen xs = seen @ filter (\<lambda>x. x \<notin> set seen) (first_occurrences xs)"
proof (induction xs arbitrary: seen)
  case Nil
  show ?case by simp
next
  case (Cons x xs)
  show ?case
  proof (cases "x \<in> set seen")
    case True
    then have "filter (\<lambda>y. y \<notin> set seen) (removeAll x (first_occurrences xs))
        = filter (\<lambda>y. y \<notin> set seen) (first_occurrences xs)"
      by (auto simp add: removeAll_filter_not_eq intro: filter_cong)
    with True Cons [of seen] show ?thesis by simp
  next
    case False
    have "filter (\<lambda>y. y \<notin> set (seen @ [x])) (first_occurrences xs)
        = filter (\<lambda>y. y \<notin> set seen) (removeAll x (first_occurrences xs))"
      by (auto simp add: removeAll_filter_not_eq intro: filter_cong)
    with False Cons [of "seen @ [x]"] show ?thesis by simp
  qed
qed

lemma default_getKeywords_text:
  "default_getKeywords (TextData s) = Inr (map Str (first_occurrences (space_tokens s)))"
  by (simp add: default_getKeywords_def split_space_empty new_Set_first_occurrences)

lemma default_getKeywords_keywords:
  "default_getKeywords e = Inr ws \<Longrightarrow> ws = default_keywords e"
  by (cases e rule: default_keywords.cases)
    (simp_all add: default_getKeywords_text, simp_all add: default_getKeywords_def)

lemma pointers_for_postings:
  "\<forall>d \<in> set docs. gk (data d) = Inr (kw (data d)) \<Longrightarrow>
     pointers_for env k gk docs t = postings env k kw docs t"
  by (induction docs) (simp_all add: pointers_for_def postings_def)

lemma resolved_keywords:
  assumes "buildIndex env docs k g = Inr T" and "d \<in> set docs"
  shows "resolve_getKeywords g docs (data d)
       = Inr ((case g of None \<Rightarrow> default_keywords | Some f \<Rightarrow> f) (data d))"
proof (cases g)
  case (Some f)
  then show ?thesis by (simp add: resolve_getKeywords_def)
next
  case None
  from assms(1) have run:
    "index_documents env k (resolve_getKeywords g docs) docs Map.empty = Inr T"
    by (simp add: buildIndex_def)
  from index_documents_keywords [OF run assms(2)] obtain ws where
    ws: "resolve_getKeywords g docs (data d) = Inr ws" by blast
  from assms(2) obtain a ds where docs: "docs = a # ds" by (cases docs) auto
  from index_documents_keywords [OF run, of a] docs obtain wa where
    wa: "resolve_getKeywords g docs (data a) = Inr wa" by auto
  from wa None docs have r: "resolve_getKeywords g docs = default_getKeywords"
    by (cases "data a") (simp_all add: resolve_getKeywords_def)
  from ws r have "ws = default_keywords (data d)"
    by (simp add: default_getKeywords_keywords)
  with ws None show ?thesis by simp
qed

lemma buildIndex_postings:
  assumes "buildIndex env docs k g = Inr T"
  shows "T t = (if postings env k (case g of None \<Rightarrow> default_keywords | Some f \<Rightarrow> f) docs t = []
                then None
                else Some (postings env k (case g of None \<Rightarrow> default_keywords | Some f \<Rightarrow> f) docs t))"
proof -
  have "\<forall>d \<in> set docs. resolve_getKeywords g docs (data d)
      = Inr ((case g of None \<Rightarrow> default_keywords | Some f \<Rightarrow> f) (data d))"
    using resolved_keywords [OF assms] by blast
  from pointers_for_postings [OF this] buildIndex_lookup [OF assms, of t] show ?thesis
    by simp
qed

text \<open>When the platform knows SHA-256, indexing cannot fail after the keywords are there.\<close>

lemma digest_succeeds:
  "hash_prim env ''SHA-256'' = Some h \<Longrightarrow> \<exists>t. digest env w \<lparr>hash = None, salt = s\<rparr> = Inr t"
  by (simp add: digest_concatenates)

lemma index_keywords_succeeds:
  "hash_prim env ''SHA-256'' = Some h \<Longrightarrow> \<exists>T'. index_keywords env k p ws T = Inr T'"
proof (induction ws arbitrary: T)
  case Nil
  show ?case by simp
next
  case (Cons w ws)
  from digest_succeeds [OF Cons.prems, of w "secretSalt k"] obtain t where
    "digest env w \<lparr>hash = None, salt = secretSalt k\<rparr> = Inr t" by blast
  with Cons.IH [OF Cons.prems] show ?case by simp
qed

lemma index_documents_succeeds:
  "hash_prim env ''SHA-256'' = Some h \<Longrightarrow> \<forall>d \<in> set docs. \<exists>ws. gk (data d) = Inr ws \<Longrightarrow>
     \<exists>T'. index_documents env k gk docs T = Inr T'"
proof (induction docs arbitrary: T)
  case Nil
  show ?case by simp
next
  case (Cons d docs)
  from Cons.prems(2) obtain ws where ws: "gk (data d) = Inr ws" by auto
  from index_keywords_succeeds [OF Cons.prems(1), of k "pointer d" ws T] obtain T1 where
    T1: "index_keywords env k (pointer d) ws T = Inr T1" by blast
  from Cons.IH [OF Cons.prems(1), of T1] Cons.prems(2) obtain T' where
    "index_documents env k gk docs T1 = Inr T'" by auto
  with ws T1 show ?case by simp
qed

lemma buildIndex_succeeds:
  assumes "hash_prim env ''SHA-256'' = Some h"
    and "g = None \<longrightarrow> (\<forall>d \<in> set docs. \<exists>s. data d = TextData s)"
  shows "\<exists>T. buildIndex env docs k g = Inr T"
proof -
  have "\<forall>d \<in> set docs. \<exists>ws. resolve_getKeywords g docs (data d) = Inr ws"
  proof (cases g)
    case (Some f)
    then show ?thesis by (simp add: resolve_getKeywords_def)
  next
    case None
    show ?thesis
    proof (cases docs)
      case Nil
      then show ?thesis by simp
    next
      case (Cons a ds)
      with assms(2) None obtain sa where "data a = TextData sa" by auto
      with None Cons have "resolve_getKeywords g docs = default_getKeywords"
        by (simp add: resolve_getKeywords_def)
      with assms(2) None show ?thesis
        by (auto simp add: default_getKeywords_text)
    qed
  qed
  from index_documents_succeeds [OF assms(1) this] show ?thesis
    by (simp add: buildIndex_def)
qed

section \<open>Trapdoors and the index\<close>

text \<open>
  C1. \<open>trapdoor(query, k)\<close> is \<open>digest(query, {salt: k.secretSalt})\<close> for a key
  material that holds a secretSalt; it depends on the key material through the secretSalt
  only; and in an index built under \<open>k\<close>, two documents that share a keyword \<open>w\<close> are
  both listed under the one trapdoor of \<open>w\<close>.
\<close>

theorem trapdoor_is_digest:
  "(secretSalt secretKey = Some s \<longrightarrow>
      trapdoor env query secretKey = digest env query \<lparr>hash = None, salt = Some s\<rparr>)
   \<and> (secretSalt ka = secretSalt kb \<longrightarrow> trapdoor env query ka = trapdoor env query kb)
   \<and> (buildIndex env docs k g = Inr T \<and> da \<in> set docs \<and> db \<in> set docs
        \<and> resolve_getKeywords g docs (data da) = Inr wsa \<and> w \<in> set wsa
        \<and> resolve_getKeywords g docs (data db) = Inr wsb \<and> w \<in> set wsb
      \<longrightarrow> (\<exists>t ps. trapdoor env w k = Inr t \<and> T t = Some ps
                  \<and> pointer da \<in> set ps \<and> pointer db \<in> set ps))"
proof (intro conjI impI)
  assume "secretSalt secretKey = Some s"
  then show "trapdoor env query secretKey = digest env query \<lparr>hash = None, salt = Some s\<rparr>"
    by (simp add: trapdoor_def)
next
  assume "secretSalt ka = secretSalt kb"
  then show "trapdoor env query ka = trapdoor env query kb"
    by (simp add: trapdoor_def)
next
  let ?gk = "resolve_getKeywords g docs"
  assume a: "buildIndex env docs k g = Inr T \<and> da \<in> set docs \<and> db \<in> set docs
        \<and> ?gk (data da) = Inr wsa \<and> w \<in> set wsa \<and> ?gk (data db) = Inr wsb \<and> w \<in> set wsb"
  then have run: "index_documents env k ?gk docs Map.empty = Inr T"
    by (simp add: buildIndex_def)
  from index_documents_trapdoor [OF run, of da wsa w] a obtain t where
    t: "trapdoor env w k = Inr t" by blast
  have 1: "pointer da \<in> set (pointers_for env k ?gk docs t)"
    using a t by (intro pointers_for_member [of da docs ?gk wsa w]) simp_all
  have 2: "pointer db \<in> set (pointers_for env k ?gk docs t)"
    using a t by (intro pointers_for_member [of db docs ?gk wsb w]) simp_all
  from 1 have ne: "pointers_for env k ?gk docs t \<noteq> []" by auto
  from a have "buildIndex env docs k g = Inr T" by simp
  from buildIndex_lookup [OF this, of t] ne
  have "T t = Some (pointers_for env k ?gk docs t)" by simp
  with t 1 2 show "\<exists>t ps. trapdoor env w k = Inr t \<and> T t = Some ps
      \<and> pointer da \<in> set ps \<and> pointer db \<in> set ps"
    by blast
qed

text \<open>
  C2. The documents \<open>[{pa, "a b"}, {pb, "b c"}]\<close> with the default tokenizer give a table
  whose keys are the trapdoors of "a", "b" and "c"; when these are three different strings,
  the table has exactly these three keys, mapped to \<open>[pa]\<close>, \<open>[pa, pb]\<close> and \<open>[pb]\<close>.
  In general, with an extractor \<open>f\<close> the keywords of a document are \<open>f\<close> of its data, and
  with none they are the distinct space-separated tokens of its text: the list under a
  trapdoor holds the pointers of the documents in processing order, once per keyword of the
  document with that trapdoor, and a trapdoor of no keyword is not a key. A table is
  returned whenever the platform knows SHA-256 and, with no extractor, every document is a
  text.
\<close>

theorem buildIndex_example:
  "(trapdoor env (Str (js ''a'')) k = Inr ta \<and> trapdoor env (Str (js ''b'')) k = Inr tb
      \<and> trapdoor env (Str (js ''c'')) k = Inr tc \<and> distinct [ta, tb, tc]
    \<longrightarrow> buildIndex env [\<lparr>pointer = pa, data = TextData (js ''a b'')\<rparr>,
                         \<lparr>pointer = pb, data = TextData (js ''b c'')\<rparr>] k None
          = Inr [ta \<mapsto> [pa], tb \<mapsto> [pa, pb], tc \<mapsto> [pb]]
        \<and> dom [ta \<mapsto> [pa], tb \<mapsto> [pa, pb], tc \<mapsto> [pb]] = {ta, tb, tc} \<and> card {ta, tb, tc} = 3)
   \<and> (trapdoor env (Str (js ''a'')) k = Inr ta \<and> trapdoor env (Str (js ''b'')) k = Inr tb
      \<and> trapdoor env (Str (js ''c'')) k = Inr tc
    \<longrightarrow> (\<exists>T. buildIndex env [\<lparr>pointer = pa, data = TextData (js ''a b'')\<rparr>,
                              \<lparr>pointer = pb, data = TextData (js ''b c'')\<rparr>] k None = Inr T
             \<and> dom T = {ta, tb, tc}))
   \<and> (buildIndex env docs k (Some f) = Inr T
    \<longrightarrow> T t = (if postings env k f docs t = [] then None
               else Some (postings env k f docs t)))
   \<and> (buildIndex env docs k None = Inr T
    \<longrightarrow> T t = (if postings env k default_keywords docs t = [] then None
               else Some (postings env k default_keywords docs t)))
   \<and> (hash_prim env ''SHA-256'' = Some h
    \<longrightarrow> (\<exists>T. buildIndex env docs k (Some f) = Inr T))
   \<and> (hash_prim env ''SHA-256'' = Some h \<and> (\<forall>d \<in> set docs. \<exists>s. data d = TextData s)
    \<longrightarrow> (\<exists>T. buildIndex env docs k None = Inr T))"
proof -
  let ?docs = "[\<lparr>pointer = pa, data = TextData (js ''a b'')\<rparr>,
                \<lparr>pointer = pb, data = TextData (js ''b c'')\<rparr>]"
  have kw1: "default_getKeywords (TextData (js ''a b'')) = Inr [Str (js ''a''), Str (js ''b'')]"
    by (simp add: default_getKeywords_def js_def)
  have kw2: "default_getKeywords (TextData (js ''b c'')) = Inr [Str (js ''b''), Str (js ''c'')]"
    by (simp add: default_getKeywords_def js_def)
  have distinct_case:
    "trapdoor env (Str (js ''a'')) k = Inr ta \<and> trapdoor env (Str (js ''b'')) k = Inr tb
      \<and> trapdoor env (Str (js ''c'')) k = Inr tc \<and> distinct [ta, tb, tc]
    \<longrightarrow> buildIndex env ?docs k None = Inr [ta \<mapsto> [pa], tb \<mapsto> [pa, pb], tc \<mapsto> [pb]]
        \<and> dom [ta \<mapsto> [pa], tb \<mapsto> [pa, pb], tc \<mapsto> [pb]] = {ta, tb, tc} \<and> card {ta, tb, tc} = 3"
  proof (intro conjI impI)
    assume h: "trapdoor env (Str (js ''a'')) k = Inr ta \<and> trapdoor env (Str (js ''b'')) k = Inr tb
        \<and> trapdoor env (Str (js ''c'')) k = Inr tc \<and> distinct [ta, tb, tc]"
    from h have d:
      "digest env (Str (js ''a'')) \<lparr>hash = None, salt = secretSalt k\<rparr> = Inr ta"
      "digest env (Str (js ''b'')) \<lparr>hash = None, salt = secretSalt k\<rparr> = Inr tb"
      "digest env (Str (js ''c'')) \<lparr>hash = None, salt = secretSalt k\<rparr> = Inr tc"
      by (simp_all add: trapdoor_def)
    from h have ne: "ta \<noteq> tb" "ta \<noteq> tc" "tb \<noteq> tc" by simp_all
    show "buildIndex env ?docs k None = Inr [ta \<mapsto> [pa], tb \<mapsto> [pa, pb], tc \<mapsto> [pb]]"
      using ne by (simp add: buildIndex_def resolve_getKeywords_def kw1 kw2 d)
    show "dom [ta \<mapsto> [pa], tb \<mapsto> [pa, pb], tc \<mapsto> [pb]] = {ta, tb, tc}"
      by auto
    show "card {ta, tb, tc} = 3"
      using ne by simp
  qed
  have any_case:
    "trapdoor env (Str (js ''a'')) k = Inr ta \<and> trapdoor env (Str (js ''b'')) k = Inr tb
      \<and> trapdoor env (Str (js ''c'')) k = Inr tc
    \<longrightarrow> (\<exists>T. buildIndex env ?docs k None = Inr T \<and> dom T = {ta, tb, tc})"
  proof (rule impI)
    assume h: "trapdoor env (Str (js ''a'')) k = Inr ta \<and> trapdoor env (Str (js ''b'')) k = Inr tb
        \<and> trapdoor env (Str (js ''c'')) k = Inr tc"
    then have d:
      "digest env (Str (js ''a'')) \<lparr>hash = None, salt = secretSalt k\<rparr> = Inr ta"
      "digest env (Str (js ''b'')) \<lparr>hash = None, salt = secretSalt k\<rparr> = Inr tb"
      "digest env (Str (js ''c'')) \<lparr>hash = None, salt = secretSalt k\<rparr> = Inr tc"
      by (simp_all add: trapdoor_def)
    show "\<exists>T. buildIndex env ?docs k None = Inr T \<and> dom T = {ta, tb, tc}"
      by (auto simp add: buildIndex_def resolve_getKeywords_def kw1 kw2 d)
  qed
  have with_extractor:
    "buildIndex env docs k (Some f) = Inr T
    \<longrightarrow> T t = (if postings env k f docs t = [] then None
               else Some (postings env k f docs t))"
    using buildIndex_postings [of env docs k "Some f" T t] by simp
  have by_default:
    "buildIndex env docs k None = Inr T
    \<longrightarrow> T t = (if postings env k default_keywords docs t = [] then None
               else Some (postings env k default_keywords docs t))"
    using buildIndex_postings [of env docs k None T t] by simp
  have returns_extractor:
    "hash_prim env ''SHA-256'' = Some h \<longrightarrow> (\<exists>T. buildIndex env docs k (Some f) = Inr T)"
    using buildIndex_succeeds [of env h "Some f" docs k] by simp
  have returns_default:
    "hash_prim env ''SHA-256'' = Some h \<and> (\<forall>d \<in> set docs. \<exists>s. data d = TextData s)
    \<longrightarrow> (\<exists>T. buildIndex env docs k None = Inr T)"
    using buildIndex_succeeds [of env h None docs k] by simp
  from distinct_case any_case with_extractor by_default returns_extractor returns_default
  show ?thesis by (intro conjI)
qed

text \<open>
  C7. Without a \<open>getKeywords\<close> function and with a first document whose data is not a
  string, \<open>buildIndex\<close> fails at the first call of \<open>getKeywords\<close>, which is undefined:
  it returns the error and no table.
\<close>

theorem buildIndex_missing_extractor:
  "data d = OtherData x outcome \<Longrightarrow>
     buildIndex env (d # ds) k None = Inl (TypeError ''getKeywords is not a function'')"
  by (simp add: buildIndex_def resolve_getKeywords_def)

section \<open>The small platform meets the contracts\<close>

lemma pkcs7_unpad_pad: "pkcs7_unpad (pkcs7_pad p) = Some p"
proof -
  define n where "n = 16 - length p mod 16"
  have n: "0 < n" "n \<le> 16" by (simp_all add: n_def)
  have pad: "pkcs7_pad p = p @ replicate n (of_nat n)"
    by (simp add: pkcs7_pad_def n_def)
  have len: "(length p + n) mod 16 = 0"
    unfolding n_def by presburger
  have last: "last (p @ replicate n (of_nat n :: byte)) = of_nat n"
    using n by simp
  have un: "unat (of_nat n :: byte) = n"
    using n by (simp add: unat_of_nat_byte)
  show ?thesis
    unfolding pad pkcs7_unpad_def using n len by (simp add: last un Let_def)
qed

lemma demo_cipher_ok: "cipher_ok demo_webcrypto"
  by (simp add: cipher_ok_def demo_webcrypto_def comp_def pkcs7_unpad_pad)

lemma demo_pbkdf2_ok: "pbkdf2_ok demo_webcrypto"
  by (auto simp add: pbkdf2_ok_def demo_webcrypto_def min_def split: if_splits)

lemma demo_key_valid: "valid_key demo_key"
  by (simp add: valid_key_def demo_key_def)

lemma replicate_num: "replicate (numeral n) x = x # replicate (pred_numeral n) x"
  by (simp add: numeral_eq_Suc)

lemmas codec_defs = js_def str2ab_def ab2str_def buffer_from_string_def buffer_toString_def
  utf8_encode_def utf8_decode_def utf8_bytes_def utf16_units_def bmp_point_def is_high_def is_low_def
  hexdigit_def unhex_def

lemmas platform_defs = demo_webcrypto_def demo_key_def subtle_digest_def subtle_encrypt_def
  subtle_decrypt_def subtle_deriveBits_def importKey_def getRandomValues_def slice_def

lemmas package_defs = digest_def trapdoor_def encrypt_def decrypt_def abConcat_def
  crypto_js_encrypt_def crypto_js_decrypt_def

lemma demo_trapdoors:
  "trapdoor demo_webcrypto (Str (js ''a'')) demo_key = Inr (js ''610102'')"
  "trapdoor demo_webcrypto (Str (js ''b'')) demo_key = Inr (js ''620102'')"
  "trapdoor demo_webcrypto (Str (js ''c'')) demo_key = Inr (js ''630102'')"
  by (simp_all add: codec_defs platform_defs package_defs)

lemma demo_keywords:
  "default_getKeywords (TextData (js ''a b'')) = Inr [Str (js ''a''), Str (js ''b'')]"
  "default_getKeywords (TextData (js ''b c'')) = Inr [Str (js ''b''), Str (js ''c'')]"
  by (simp_all add: default_getKeywords_def js_def)

lemma demo_index:
  "buildIndex demo_webcrypto
     [\<lparr>pointer = js ''p1'', data = TextData (js ''a b'')\<rparr>,
      \<lparr>pointer = js ''p2'', data = TextData (js ''b c'')\<rparr>] demo_key None
   = Inr [js ''610102'' \<mapsto> [js ''p1''], js ''620102'' \<mapsto> [js ''p1'', js ''p2''],
          js ''630102'' \<mapsto> [js ''p2'']]"
proof -
  have ne: "js ''610102'' \<noteq> js ''620102''" "js ''610102'' \<noteq> js ''630102''"
    "js ''620102'' \<noteq> js ''630102''"
    by (simp_all add: js_def)
  show ?thesis
    using ne
    by (simp add: buildIndex_def resolve_getKeywords_def demo_keywords
        demo_trapdoors [unfolded trapdoor_def])
qed

theorem trapdoor_is_digest_witness:
  "trapdoor demo_webcrypto (Str (js ''b'')) demo_key
     = digest demo_webcrypto (Str (js ''b'')) \<lparr>hash = None, salt = Some (Buf (Uint8Array [1, 2]))\<rparr>
   \<and> (\<exists>t ps. trapdoor demo_webcrypto (Str (js ''b'')) demo_key = Inr t
        \<and> [js ''610102'' \<mapsto> [js ''p1''], js ''620102'' \<mapsto> [js ''p1'', js ''p2''],
            js ''630102'' \<mapsto> [js ''p2'']] t = Some ps
        \<and> js ''p1'' \<in> set ps \<and> js ''p2'' \<in> set ps)"
proof -
  let ?da = "\<lparr>pointer = js ''p1'', data = TextData (js ''a b'') :: unit docdata\<rparr>"
  let ?db = "\<lparr>pointer = js ''p2'', data = TextData (js ''b c'') :: unit docdata\<rparr>"
  let ?T = "[js ''610102'' \<mapsto> [js ''p1''], js ''620102'' \<mapsto> [js ''p1'', js ''p2''],
            js ''630102'' \<mapsto> [js ''p2'']]"
  have s: "secretSalt demo_key = Some (Buf (Uint8Array [1, 2]))"
    by (simp add: demo_key_def)
  have T: "buildIndex demo_webcrypto [?da, ?db] demo_key None = Inr ?T"
    by (rule demo_index)
  have ka: "resolve_getKeywords None [?da, ?db] (data ?da) = Inr [Str (js ''a''), Str (js ''b'')]"
    by (simp add: resolve_getKeywords_def demo_keywords)
  have kb: "resolve_getKeywords None [?da, ?db] (data ?db) = Inr [Str (js ''b''), Str (js ''c'')]"
    by (simp add: resolve_getKeywords_def demo_keywords)
  note inst = trapdoor_is_digest [where secretKey = demo_key and s = "Buf (Uint8Array [1, 2])"
      and env = demo_webcrypto and query = "Str (js ''b'')" and docs = "[?da, ?db]" and k = demo_key
      and g = None and T = ?T and da = ?da and db = ?db and wsa = "[Str (js ''a''), Str (js ''b'')]"
      and wsb = "[Str (js ''b''), Str (js ''c'')]" and w = "Str (js ''b'')"]
  from inst s have 1: "trapdoor demo_webcrypto (Str (js ''b'')) demo_key
     = digest demo_webcrypto (Str (js ''b'')) \<lparr>hash = None, salt = Some (Buf (Uint8Array [1, 2]))\<rparr>"
    by blast
  have m: "?da \<in> set [?da, ?db]" "?db \<in> set [?da, ?db]"
    "Str (js ''b'') \<in> set [Str (js ''a''), Str (js ''b'')]"
    "Str (js ''b'') \<in> set [Str (js ''b''), Str (js ''c'')]"
    by simp_all
  from inst T ka kb m have 2: "\<exists>t ps. trapdoor demo_webcrypto (Str (js ''b'')) demo_key = Inr t
        \<and> ?T t = Some ps \<and> pointer ?da \<in> set ps \<and> pointer ?db \<in> set ps"
    by blast
  from 1 2 show ?thesis by simp
qed

theorem buildIndex_example_witness:
  "buildIndex demo_webcrypto
     [\<lparr>pointer = js ''p1'', data = TextData (js ''a b'')\<rparr>,
      \<lparr>pointer = js ''p2'', data = TextData (js ''b c'') :: unit docdata\<rparr>] demo_key None
   = Inr [js ''610102'' \<mapsto> [js ''p1''], js ''620102'' \<mapsto> [js ''p1'', js ''p2''],
          js ''630102'' \<mapsto> [js ''p2'']]
   \<and> (\<exists>T. buildIndex demo_webcrypto
          [\<lparr>pointer = js ''p1'', data = TextData (js ''a b'')\<rparr>,
           \<lparr>pointer = js ''p2'', data = TextData (js ''b c'') :: unit docdata\<rparr>] demo_key None
          = Inr T
        \<and> dom T = {js ''610102'', js ''620102'', js ''630102''}
        \<and> T (js ''620102'') = Some [js ''p1'', js ''p2'']
        \<and> T (js ''640102'') = None)
   \<and> (\<exists>T. buildIndex demo_webcrypto
          [\<lparr>pointer = js ''p1'', data = TextData (js ''a b'')\<rparr>,
           \<lparr>pointer = js ''p2'', data = TextData (js ''b c'') :: unit docdata\<rparr>] demo_key
          (Some (\<lambda>e. [Str (js ''c''), Str (js ''c'')])) = Inr T
        \<and> T (js ''630102'') = Some [js ''p1'', js ''p1'', js ''p2'', js ''p2'']
        \<and> T (js ''620102'') = None)"
proof -
  let ?docs = "[\<lparr>pointer = js ''p1'', data = TextData (js ''a b'')\<rparr>,
                \<lparr>pointer = js ''p2'', data = TextData (js ''b c'') :: unit docdata\<rparr>]"
  let ?f = "\<lambda>e :: unit docdata. [Str (js ''c''), Str (js ''c'')]"
  have d: "distinct [js ''610102'', js ''620102'', js ''630102'']"
    by (simp add: js_def)
  have sha: "hash_prim demo_webcrypto ''SHA-256'' = Some (\<lambda>bs. bs)"
    by (simp add: demo_webcrypto_def)
  have texts: "\<forall>d \<in> set ?docs. \<exists>s. data d = TextData s"
    by simp
  have ne: "js ''610102'' \<noteq> js ''620102''" "js ''630102'' \<noteq> js ''620102''"
    "js ''610102'' \<noteq> js ''640102''" "js ''620102'' \<noteq> js ''640102''"
    "js ''630102'' \<noteq> js ''640102''"
    by (simp_all add: js_def)
  have kw: "first_occurrences (space_tokens (js ''a b'')) = [js ''a'', js ''b'']"
    "first_occurrences (space_tokens (js ''b c'')) = [js ''b'', js ''c'']"
    by (simp_all add: js_def)
  have pb: "postings demo_webcrypto demo_key default_keywords ?docs (js ''620102'')
      = [js ''p1'', js ''p2'']"
    using ne by (simp add: postings_def kw demo_trapdoors)
  have pd: "postings demo_webcrypto demo_key default_keywords ?docs (js ''640102'') = []"
    using ne by (simp add: postings_def kw demo_trapdoors)
  have fc: "postings demo_webcrypto demo_key ?f ?docs (js ''630102'')
      = [js ''p1'', js ''p1'', js ''p2'', js ''p2'']"
    by (simp add: postings_def demo_trapdoors)
  have fb: "postings demo_webcrypto demo_key ?f ?docs (js ''620102'') = []"
    using ne by (simp add: postings_def demo_trapdoors)
  note ex = buildIndex_example [where env = demo_webcrypto and k = demo_key
      and ta = "js ''610102''" and tb = "js ''620102''" and tc = "js ''630102''"
      and pa = "js ''p1''" and pb = "js ''p2''"]
  from ex [THEN conjunct1] demo_trapdoors d
  have 1: "buildIndex demo_webcrypto ?docs demo_key None
      = Inr [js ''610102'' \<mapsto> [js ''p1''], js ''620102'' \<mapsto> [js ''p1'', js ''p2''],
             js ''630102'' \<mapsto> [js ''p2'']]"
    by blast
  from ex [THEN conjunct2, THEN conjunct1] demo_trapdoors
  obtain T where T: "buildIndex demo_webcrypto ?docs demo_key None = Inr T"
    and keys: "dom T = {js ''610102'', js ''620102'', js ''630102''}"
    by blast
  from buildIndex_example [where env = demo_webcrypto and k = demo_key and docs = ?docs
      and h = "\<lambda>bs. bs", THEN conjunct2, THEN conjunct2, THEN conjunct2, THEN conjunct2,
      THEN conjunct2] sha texts
  have "\<exists>T'. buildIndex demo_webcrypto ?docs demo_key None = Inr T'"
    by blast
  from buildIndex_example [where env = demo_webcrypto and k = demo_key and docs = ?docs
      and T = T and t = "js ''620102''", THEN conjunct2, THEN conjunct2, THEN conjunct2,
      THEN conjunct1] T pb
  have Tb: "T (js ''620102'') = Some [js ''p1'', js ''p2'']"
    by simp
  from buildIndex_example [where env = demo_webcrypto and k = demo_key and docs = ?docs
      and T = T and t = "js ''640102''", THEN conjunct2, THEN conjunct2, THEN conjunct2,
      THEN conjunct1] T pd
  have Td: "T (js ''640102'') = None"
    by simp
  from buildIndex_example [where env = demo_webcrypto and k = demo_key and docs = ?docs
      and f = ?f and h = "\<lambda>bs. bs", THEN conjunct2, THEN conjunct2, THEN conjunct2,
      THEN conjunct2, THEN conjunct1] sha
  obtain U where U: "buildIndex demo_webcrypto ?docs demo_key (Some ?f) = Inr U"
    by blast
  from buildIndex_example [where env = demo_webcrypto and k = demo_key and docs = ?docs
      and f = ?f and T = U and t = "js ''630102''", THEN conjunct2, THEN conjunct2,
      THEN conjunct1] U fc
  have Uc: "U (js ''630102'') = Some [js ''p1'', js ''p1'', js ''p2'', js ''p2'']"
    by simp
  from buildIndex_example [where env = demo_webcrypto and k = demo_key and docs = ?docs
      and f = ?f and T = U and t = "js ''620102''", THEN conjunct2, THEN conjunct2,
      THEN conjunct1] U fb
  have Ub: "U (js ''620102'') = None"
    by simp
  from 1 T keys Tb Td U Uc Ub show ?thesis
    by blast
qed

theorem buildIndex_missing_extractor_witness:
  "buildIndex demo_webcrypto
     [\<lparr>pointer = js ''p1'',
       data = OtherData (5 :: nat) (Inl (TypeError ''e.split is not a function''))\<rparr>,
      \<lparr>pointer = js ''p2'', data = TextData (js ''b c'')\<rparr>] demo_key None
   = Inl (TypeError ''getKeywords is not a function'')"
  using buildIndex_missing_extractor
    [where d = "\<lparr>pointer = js ''p1'',
         data = OtherData (5 :: nat) (Inl (TypeError ''e.split is not a function''))\<rparr>"
      and x = 5 and outcome = "Inl (TypeError ''e.split is not a function'')"
      and env = demo_webcrypto
      and ds = "[\<lparr>pointer = js ''p2'', data = TextData (js ''b c'')\<rparr>]" and k = demo_key]
  by simp

section \<open>Encryption and decryption\<close>

lemma byteLength_contents: "byteLength b = length (contents b)"
  by (cases b) simp_all

lemma lossless_text:
  assumes "encoding = None \<or> encoding = Some Hex \<or> encoding = Some Latin1"
  shows "str2ab (ab2str b encoding) encoding = Uint8Array (contents b)"
  using assms
  by (auto simp add: str2ab_def ab2str_def buffer_from_string_def buffer_toString_def
      hex_decode_encode comp_def ucast_down_ucast_id is_down)

lemma hex_stops:
  assumes "t = [] \<or> (\<exists>a. t = [a]) \<or> (\<exists>a b r. t = a # b # r \<and> (unhex a = None \<or> unhex b = None))"
  shows "hex_decode t = []"
  using assms by (auto split: option.splits)

text \<open>
  C3. \<open>decrypt(encrypt(m, k, encoding), k, encoding) = m\<close> for every well-formed string
  \<open>m\<close> and valid key material, over a cipher whose decryption inverts its encryption,
  when the ciphertext encoding is the default \<open>'hex'\<close> or \<open>'latin1'\<close>, which turn
  bytes into text without loss.
\<close>

theorem encrypt_decrypt_roundtrip:
  assumes "cipher_ok env" and "valid_key k" and "well_formed m"
    and "encoding = None \<or> encoding = Some Hex \<or> encoding = Some Latin1"
  shows "\<exists>c. encrypt env m k encoding = Inr c \<and> decrypt env (Str c) k encoding = Inr m"
proof -
  let ?p = "utf8_encode m"
  let ?c = "aes_cbc_encrypt env (raw (key k)) (contents (iv k)) ?p"
  from assms(2) have alg: "algorithm (key k) = ''AES-CBC''"
    and use: "''encrypt'' \<in> set (usages (key k))" "''decrypt'' \<in> set (usages (key k))"
    and klen: "length (raw (key k)) = 16 \<or> length (raw (key k)) = 24 \<or> length (raw (key k)) = 32"
    and ivlen: "byteLength (iv k) = 16"
    by (simp_all add: valid_key_def)
  from ivlen have ivc: "length (contents (iv k)) = 16"
    by (simp add: byteLength_contents)
  have enc: "encrypt env m k encoding = Inr (ab2str (ArrayBuffer ?c) encoding)"
    using alg use ivlen
    by (simp add: encrypt_def subtle_encrypt_def str2ab_def buffer_from_string_def)
  have txt_bytes: "str2ab (ab2str (ArrayBuffer ?c) encoding) encoding = Uint8Array ?c"
    using lossless_text [OF assms(4), of "ArrayBuffer ?c"] by simp
  have dec: "aes_cbc_decrypt env (raw (key k)) (contents (iv k)) ?c = Some ?p"
    using assms(1) klen ivc unfolding cipher_ok_def by blast
  have out: "ab2str (ArrayBuffer ?p) (Some Utf8) = utf8_decode ?p"
    by (simp add: ab2str_def buffer_toString_def)
  have "decrypt env (Str (ab2str (ArrayBuffer ?c) encoding)) k encoding = Inr (utf8_decode ?p)"
    using alg use ivlen
    by (simp add: decrypt_def subtle_decrypt_def txt_bytes dec out)
  with enc utf8_roundtrip [OF assms(3)] show ?thesis
    by simp
qed

theorem encrypt_decrypt_roundtrip_witness:
  "\<exists>c. encrypt demo_webcrypto (js ''a'') demo_key None = Inr c
       \<and> decrypt demo_webcrypto (Str c) demo_key None = Inr (js ''a'')"
proof -
  have wf: "well_formed (js ''a'')"
    by (simp add: js_def is_high_def is_low_def)
  have e: "(None :: encoding option) = None \<or> None = Some Hex \<or> None = Some Latin1"
    by simp
  from encrypt_decrypt_roundtrip [OF demo_cipher_ok demo_key_valid wf e] show ?thesis .
qed

theorem ascii_ciphertext_counterexample:
  "encrypt demo_webcrypto (js ''a'') demo_key (Some Ascii) = Inr (0x1E # replicate 15 0x70)
   \<and> decrypt demo_webcrypto (Str (0x1E # replicate 15 0x70)) demo_key (Some Ascii)
       = Inl OperationError"
  by (simp add: codec_defs platform_defs package_defs pkcs7_pad_def pkcs7_unpad_def
      replicate_num)

text \<open>
  C9. No text makes \<open>str2ab\<close> fail. Under \<open>'hex'\<close>, the default, it decodes the leading
  pairs of hexadecimal digits and drops the rest of the text from the first pair that is
  not two such digits (or a single last character); \<open>decrypt\<close> then decrypts the bytes
  that were decoded.
\<close>

theorem str2ab_hex_truncates:
  assumes "t = [] \<or> (\<exists>a. t = [a]) \<or> (\<exists>a b r. t = a # b # r \<and> (unhex a = None \<or> unhex b = None))"
  shows "str2ab (hex_encode bs @ t) None = Uint8Array bs
       \<and> decrypt env (Str (hex_encode bs @ t)) k None = decrypt env (Str (hex_encode bs)) k None"
proof -
  from hex_stops [OF assms] have "hex_decode (hex_encode bs @ t) = bs"
    by (simp add: hex_decode_append)
  then show ?thesis
    by (simp add: str2ab_def buffer_from_string_def decrypt_def hex_decode_encode)
qed

theorem str2ab_hex_truncates_witness:
  "str2ab (hex_encode [0x41] @ js ''zz'') None = Uint8Array [0x41]
   \<and> decrypt demo_webcrypto (Str (hex_encode [0x41] @ js ''zz'')) demo_key None
       = decrypt demo_webcrypto (Str (hex_encode [0x41])) demo_key None"
proof -
  have "\<exists>a b r. js ''zz'' = a # b # r \<and> (unhex a = None \<or> unhex b = None)"
    by (simp add: js_def unhex_def)
  then have "js ''zz'' = [] \<or> (\<exists>a. js ''zz'' = [a])
      \<or> (\<exists>a b r. js ''zz'' = a # b # r \<and> (unhex a = None \<or> unhex b = None))"
    by blast
  from str2ab_hex_truncates [OF this] show ?thesis .
qed

theorem non_hex_ciphertext_counterexample:
  "str2ab (js ''41zz'') None = Uint8Array [0x41]
   \<and> decrypt demo_webcrypto (Str (js ''9ef0f0f0f0f0f0f0f0f0f0f0f0f0f0f0zz'')) demo_key None
       = Inr (js ''a'')"
  by (simp add: codec_defs platform_defs package_defs pkcs7_unpad_def replicate_num)

lemma crypto_js_agrees_at_utf8:
  "crypto_js_encrypt env m k (Some Utf8) = encrypt env m k (Some Utf8)"
  "crypto_js_decrypt env c k (Some Utf8) = decrypt env (Str c) k (Some Utf8)"
  by (simp_all add: crypto_js_encrypt_def encrypt_def crypto_js_decrypt_def decrypt_def)

text \<open>
  C10. The pair of \<open>src/crypto.js\<close> reads the plaintext with the ciphertext encoding.
  With the encoding left out that is \<open>'hex'\<close>: the plaintext "hello" has no leading
  hexadecimal pair, so what is encrypted is the empty message, and the two versions of
  \<open>encrypt\<close> give different ciphertexts. Its \<open>decrypt\<close> returns the decrypted bytes
  in the ciphertext encoding: "61" where the other version returns "a".
\<close>

theorem crypto_js_encrypt_reads_hex:
  "crypto_js_encrypt env (js ''hello'') k None = encrypt env [] k None
   \<and> crypto_js_encrypt demo_webcrypto (js ''hello'') demo_key None
       \<noteq> encrypt demo_webcrypto (js ''hello'') demo_key None
   \<and> crypto_js_decrypt demo_webcrypto (js ''9ef0f0f0f0f0f0f0f0f0f0f0f0f0f0f0'') demo_key None
       = Inr (js ''61'')
   \<and> decrypt demo_webcrypto (Str (js ''9ef0f0f0f0f0f0f0f0f0f0f0f0f0f0f0'')) demo_key None
       = Inr (js ''a'')"
proof (intro conjI)
  have "hex_decode (js ''hello'') = []"
    by (simp add: js_def unhex_def)
  then show "crypto_js_encrypt env (js ''hello'') k None = encrypt env [] k None"
    by (simp add: crypto_js_encrypt_def encrypt_def str2ab_def buffer_from_string_def
        utf8_encode_def)
  show "crypto_js_encrypt demo_webcrypto (js ''hello'') demo_key None
       \<noteq> encrypt demo_webcrypto (js ''hello'') demo_key None"
    by (simp add: codec_defs platform_defs package_defs pkcs7_pad_def replicate_num)
  show "crypto_js_decrypt demo_webcrypto (js ''9ef0f0f0f0f0f0f0f0f0f0f0f0f0f0f0'') demo_key None
       = Inr (js ''61'')"
    by (simp add: codec_defs platform_defs package_defs pkcs7_unpad_def replicate_num)
  show "decrypt demo_webcrypto (Str (js ''9ef0f0f0f0f0f0f0f0f0f0f0f0f0f0f0'')) demo_key None
       = Inr (js ''a'')"
    by (simp add: codec_defs platform_defs package_defs pkcs7_unpad_def replicate_num)
qed

section \<open>Key derivation and digest\<close>

lemma slice_key: "slice bs 0 (Some 32) = take 32 bs"
  by (simp add: slice_def min_def)

lemma slice_iv: "slice bs (- 16) None = drop (length bs - 16) bs"
  by (auto simp add: slice_def max_def nat_diff_distrib')

lemma draw_second: "map (\<lambda>i. rng (i + 512)) [0..<512] = map rng [512..<1024]"
proof -
  have "map (\<lambda>i. rng (i + 512)) [0..<512] = map rng (map (\<lambda>i. i + 512) [0..<512])"
    by simp
  also have "map (\<lambda>i. i + 512) [0..<512] = [512..<1024]"
    using map_add_upt [of 512 512] by simp
  finally show ?thesis .
qed

lemma import_passphrase:
  "importKey (str2ab s None) ''PBKDF2'' False [''deriveBits'']
     = Inr \<lparr>algorithm = ''PBKDF2'', raw = contents (str2ab s None), extractable = False,
            usages = [''deriveBits'']\<rparr>"
  by (simp add: importKey_def)

lemma import_aes:
  "importKey (ArrayBuffer bs) ''AES-CBC'' True [''encrypt'', ''decrypt'']
     = (if length bs = 16 \<or> length bs = 24 \<or> length bs = 32
        then Inr \<lparr>algorithm = ''AES-CBC'', raw = bs, extractable = True,
                  usages = [''encrypt'', ''decrypt'']\<rparr>
        else Inl DataError)"
  by (simp add: importKey_def)

text \<open>The whole of \<open>genSecretKey\<close> in terms of the two PBKDF2 runs.\<close>

lemma genSecretKey_result:
  "fst (genSecretKey env secret opts rng) =
     (case pbkdf2_prim env (hash_name opts) (passphrase_bytes secret) (main_salt opts rng)
             (iteration_count opts) (key_length opts * 8) of
        Inl e \<Rightarrow> Inl e
      | Inr bits \<Rightarrow>
          if length (take 32 bits) = 16 \<or> length (take 32 bits) = 24 \<or> length (take 32 bits) = 32
          then (case pbkdf2_prim env (hash_name opts) (passphrase_bytes secret) (fresh_salt opts rng)
                       (iteration_count opts / 2) (32 * 8) of
                  Inl e \<Rightarrow> Inl e
                | Inr ss \<Rightarrow> Inr (key_material bits ss))
          else Inl DataError)"
proof (cases "salt opts")
  case None
  then show ?thesis
    by (auto simp add: genSecretKey_def import_passphrase import_aes subtle_deriveBits_def slice_key
        slice_iv hash_name_def passphrase_bytes_def main_salt_def fresh_salt_def
        iteration_count_def key_length_def key_material_def getRandomValues_def draw_second
        Let_def split: sum.splits)
next
  case (Some s)
  then show ?thesis
    by (cases s)
      (auto simp add: genSecretKey_def import_passphrase import_aes subtle_deriveBits_def slice_key
        slice_iv hash_name_def passphrase_bytes_def main_salt_def fresh_salt_def
        iteration_count_def key_length_def key_material_def getRandomValues_def Let_def
        split: sum.splits)
qed

lemma demo_pbkdf2:
  "pbkdf2_prim demo_webcrypto h pw s its len =
     (if its < 1 \<or> len = 0 \<or> len mod 8 \<noteq> 0 then Inl OperationError
      else Inr (take (len div 8) (s @ pw @ replicate (len div 8) 0)))"
  by (simp add: demo_webcrypto_def)

lemma map_const_upt: "map (\<lambda>i. c) [a..<b] = replicate (b - a) c"
  by (simp add: map_replicate_const)

lemmas keygen_defs = hash_name_def passphrase_bytes_def main_salt_def fresh_salt_def
  iteration_count_def key_length_def

text \<open>
  C5. The secretSalt is the output of a second PBKDF2 run over the same imported
  passphrase key and the same hash, with the next 512 random bytes as salt (drawn after
  those of the main salt, when that one is random too), half the iteration count
  (\<open>999 / 2\<close> by default) and a length of \<open>32 * 8\<close> bits, hence 32 bytes.
\<close>

theorem secretSalt_derivation:
  assumes "fst (genSecretKey env secret opts rng) = Inr km"
  shows "\<exists>bits ss.
      pbkdf2_prim env (hash_name opts) (passphrase_bytes secret) (main_salt opts rng)
        (iteration_count opts) (key_length opts * 8) = Inr bits
    \<and> pbkdf2_prim env (hash_name opts) (passphrase_bytes secret) (fresh_salt opts rng)
        (iteration_count opts / 2) (32 * 8) = Inr ss
    \<and> secretSalt km = Some (Buf (ArrayBuffer ss))
    \<and> length (fresh_salt opts rng) = 512
    \<and> (salt opts = None \<longrightarrow>
          main_salt opts rng = map rng [0..<512] \<and> fresh_salt opts rng = map rng [512..<1024])
    \<and> (iterations opts = None \<longrightarrow> iteration_count opts / 2 = 999 / 2)
    \<and> (pbkdf2_ok env \<longrightarrow> length ss = 32)"
proof -
  from assms obtain bits ss where
    1: "pbkdf2_prim env (hash_name opts) (passphrase_bytes secret) (main_salt opts rng)
        (iteration_count opts) (key_length opts * 8) = Inr bits"
    and 2: "pbkdf2_prim env (hash_name opts) (passphrase_bytes secret) (fresh_salt opts rng)
        (iteration_count opts / 2) (32 * 8) = Inr ss"
    and km: "km = key_material bits ss"
    unfolding genSecretKey_result by (auto split: sum.splits if_splits)
  have len: "length (fresh_salt opts rng) = 512"
    by (simp add: fresh_salt_def split: option.splits)
  have ok: "pbkdf2_ok env \<longrightarrow> length ss = 32"
    using 2 unfolding pbkdf2_ok_def by fastforce
  from 1 2 km len ok show ?thesis
    by (auto simp add: key_material_def main_salt_def fresh_salt_def iteration_count_def)
qed

theorem secretSalt_derivation_witness:
  "fst (genSecretKey demo_webcrypto None
          \<lparr>hash = None, salt = None, iterations = None, keyLengthByte = None\<rparr> of_nat)
     = Inr (key_material (map of_nat [0..<48]) (map of_nat [512..<544]))
   \<and> (\<exists>ss. pbkdf2_prim demo_webcrypto ''SHA-256'' [] (map of_nat [512..<1024]) (999 / 2) (32 * 8)
             = Inr ss \<and> length ss = 32)"
proof -
  let ?opts = "\<lparr>hash = None, salt = None, iterations = None, keyLengthByte = None\<rparr>"
  have pw: "passphrase_bytes None = []"
    by (simp add: passphrase_bytes_def str2ab_def buffer_from_string_def js_def unhex_def)
  have h: "fst (genSecretKey demo_webcrypto None ?opts of_nat)
     = Inr (key_material (map of_nat [0..<48]) (map of_nat [512..<544]))"
    by (simp add: genSecretKey_result demo_pbkdf2 pw hash_name_def main_salt_def fresh_salt_def
        iteration_count_def key_length_def take_map del: upt_rec_numeral)
  from secretSalt_derivation [OF h] obtain ss where
    "pbkdf2_prim demo_webcrypto (hash_name ?opts) (passphrase_bytes None)
        (fresh_salt ?opts of_nat) (iteration_count ?opts / 2) (32 * 8) = Inr ss"
    and "pbkdf2_ok demo_webcrypto \<longrightarrow> length ss = 32"
    by blast
  with demo_pbkdf2_ok pw have "pbkdf2_prim demo_webcrypto ''SHA-256'' []
      (map of_nat [512..<1024]) (999 / 2) (32 * 8) = Inr ss \<and> length ss = 32"
    by (simp add: hash_name_def fresh_salt_def iteration_count_def)
  with h show ?thesis by blast
qed

text \<open>
  C4. With the salt of the main derivation given, the cipher key and the iv of two calls
  with the same passphrase and options are the same whatever the random source returns;
  the whole result is the same when the random source returns the same 512 bytes, which
  are the salt of the secretSalt derivation and which no option can set.
\<close>

theorem genSecretKey_determinism:
  assumes "salt opts = Some s"
  shows "(map rnga [0..<512] = map rngb [0..<512] \<longrightarrow>
            fst (genSecretKey env secret opts rnga) = fst (genSecretKey env secret opts rngb))
       \<and> (fst (genSecretKey env secret opts rnga) = Inr kma
            \<and> fst (genSecretKey env secret opts rngb) = Inr kmb
          \<longrightarrow> key kma = key kmb \<and> iv kma = iv kmb)"
proof -
  have m: "main_salt opts rnga = main_salt opts rngb"
    using assms by (simp add: main_salt_def)
  have f: "fresh_salt opts rnga = map rnga [0..<512]" "fresh_salt opts rngb = map rngb [0..<512]"
    using assms by (simp_all add: fresh_salt_def)
  have same: "map rnga [0..<512] = map rngb [0..<512] \<longrightarrow>
      fst (genSecretKey env secret opts rnga) = fst (genSecretKey env secret opts rngb)"
  proof (rule impI)
    assume "map rnga [0..<512] = map rngb [0..<512]"
    then show "fst (genSecretKey env secret opts rnga) = fst (genSecretKey env secret opts rngb)"
      by (simp only: genSecretKey_result m f)
  qed
  have keys: "fst (genSecretKey env secret opts rnga) = Inr kma
            \<and> fst (genSecretKey env secret opts rngb) = Inr kmb
          \<longrightarrow> key kma = key kmb \<and> iv kma = iv kmb"
  proof (rule impI)
    assume both: "fst (genSecretKey env secret opts rnga) = Inr kma
            \<and> fst (genSecretKey env secret opts rngb) = Inr kmb"
    then obtain bits ssa where
      a: "pbkdf2_prim env (hash_name opts) (passphrase_bytes secret) (main_salt opts rngb)
        (iteration_count opts) (key_length opts * 8) = Inr bits"
      and kma: "kma = key_material bits ssa"
      unfolding genSecretKey_result m by (auto split: sum.splits if_splits)
    from both a obtain ssb where kmb: "kmb = key_material bits ssb"
      unfolding genSecretKey_result m by (auto split: sum.splits if_splits)
    from kma kmb show "key kma = key kmb \<and> iv kma = iv kmb"
      by (simp add: key_material_def)
  qed
  from same keys show ?thesis ..
qed

theorem genSecretKey_determinism_witness:
  "fst (genSecretKey demo_webcrypto (Some (js ''00ff''))
          \<lparr>hash = None, salt = Some (Buf (Uint8Array [1, 2, 3])), iterations = None,
           keyLengthByte = None\<rparr> (\<lambda>i. 0))
     = Inr (key_material ([1, 2, 3, 0, 255] @ replicate 43 0) (replicate 32 0))
   \<and> fst (genSecretKey demo_webcrypto (Some (js ''00ff''))
          \<lparr>hash = None, salt = Some (Buf (Uint8Array [1, 2, 3])), iterations = None,
           keyLengthByte = None\<rparr> (\<lambda>i. 1))
     = Inr (key_material ([1, 2, 3, 0, 255] @ replicate 43 0) (replicate 32 1))
   \<and> key (key_material ([1, 2, 3, 0, 255] @ replicate 43 0) (replicate 32 0))
     = key (key_material ([1, 2, 3, 0, 255] @ replicate 43 0) (replicate 32 1))
   \<and> iv (key_material ([1, 2, 3, 0, 255] @ replicate 43 0) (replicate 32 0))
     = iv (key_material ([1, 2, 3, 0, 255] @ replicate 43 0) (replicate 32 1))"
proof -
  let ?opts = "\<lparr>hash = None, salt = Some (Buf (Uint8Array [1, 2, 3])), iterations = None,
           keyLengthByte = None\<rparr>"
  have pw: "passphrase_bytes (Some (js ''00ff'')) = [0, 255]"
    by (simp add: passphrase_bytes_def str2ab_def buffer_from_string_def js_def unhex_def)
  have a: "fst (genSecretKey demo_webcrypto (Some (js ''00ff'')) ?opts (\<lambda>i. 0))
     = Inr (key_material ([1, 2, 3, 0, 255] @ replicate 43 0) (replicate 32 0))"
    by (simp add: genSecretKey_result demo_pbkdf2 pw hash_name_def main_salt_def fresh_salt_def
        iteration_count_def key_length_def map_const_upt del: upt_rec_numeral)
  have b: "fst (genSecretKey demo_webcrypto (Some (js ''00ff'')) ?opts (\<lambda>i. 1))
     = Inr (key_material ([1, 2, 3, 0, 255] @ replicate 43 0) (replicate 32 1))"
    by (simp add: genSecretKey_result demo_pbkdf2 pw hash_name_def main_salt_def fresh_salt_def
        iteration_count_def key_length_def map_const_upt del: upt_rec_numeral)
  have s: "salt ?opts = Some (Buf (Uint8Array [1, 2, 3]))"
    by simp
  note inst = genSecretKey_determinism [OF s, of "\<lambda>i. 0" "\<lambda>i. 1" demo_webcrypto
      "Some (js ''00ff'')", THEN conjunct2, rule_format]
  from inst [OF conjI [OF a b]] a b show ?thesis
    by blast
qed

theorem fresh_secretSalt_counterexample:
  "map_sum id secretSalt
      (fst (genSecretKey demo_webcrypto (Some (js ''00ff''))
              \<lparr>hash = None, salt = Some (Buf (Uint8Array [1, 2, 3])), iterations = Some 1000,
               keyLengthByte = None\<rparr> (\<lambda>i. 0)))
     = Inr (Some (Buf (ArrayBuffer (replicate 32 0))))
   \<and> map_sum id secretSalt
      (fst (genSecretKey demo_webcrypto (Some (js ''00ff''))
              \<lparr>hash = None, salt = Some (Buf (Uint8Array [1, 2, 3])), iterations = Some 1000,
               keyLengthByte = None\<rparr> (\<lambda>i. 1)))
     = Inr (Some (Buf (ArrayBuffer (replicate 32 1))))"
proof -
  have pw: "passphrase_bytes (Some (js ''00ff'')) = [0, 255]"
    by (simp add: passphrase_bytes_def str2ab_def buffer_from_string_def js_def unhex_def)
  show ?thesis
    by (simp add: genSecretKey_result demo_pbkdf2 pw hash_name_def main_salt_def fresh_salt_def
        iteration_count_def key_length_def key_material_def map_const_upt del: upt_rec_numeral)
qed


text \<open>
  C6. \<open>genSecretKey\<close> does not look at \<open>keyLengthByte\<close> before deriving. Given that
  PBKDF2 returns the \<open>n = keyLengthByte\<close> bytes asked for, it returns key material when
  \<open>n\<close> is 16, 24 or at least 32: the key is the first 32 bytes (all of them when there are
  fewer) and the iv the last 16, which overlap the key when \<open>n < 48\<close>. For any other \<open>n\<close>
  the import of the AES key fails with a DataError.
\<close>

theorem genSecretKey_keyLength:
  assumes "pbkdf2_prim env (hash_name opts) (passphrase_bytes secret) (main_salt opts rng)
             (iteration_count opts) (n * 8) = Inr bits"
    and "length bits = n" and "keyLengthByte opts = Some n"
    and "pbkdf2_prim env (hash_name opts) (passphrase_bytes secret) (fresh_salt opts rng)
             (iteration_count opts / 2) (32 * 8) = Inr ss"
  shows "fst (genSecretKey env secret opts rng) =
           (if n = 16 \<or> n = 24 \<or> 32 \<le> n
            then Inr \<lparr>key = \<lparr>algorithm = ''AES-CBC'', raw = take 32 bits, extractable = True,
                              usages = [''encrypt'', ''decrypt'']\<rparr>,
                      iv = ArrayBuffer (drop (n - 16) bits),
                      secretSalt = Some (Buf (ArrayBuffer ss))\<rparr>
            else Inl DataError)"
proof -
  have kl: "key_length opts = n"
    using assms(3) by (simp add: key_length_def)
  have "length (take 32 bits) = 16 \<or> length (take 32 bits) = 24 \<or> length (take 32 bits) = 32
      \<longleftrightarrow> n = 16 \<or> n = 24 \<or> 32 \<le> n"
    using assms(2) by (auto simp add: min_def)
  then show ?thesis
    using assms(1,2,4) by (simp add: genSecretKey_result kl key_material_def)
qed

theorem genSecretKey_keyLength_witness:
  "fst (genSecretKey demo_webcrypto (Some (js ''00ff''))
          \<lparr>hash = None, salt = Some (Buf (Uint8Array [1, 2, 3])), iterations = None,
           keyLengthByte = Some 20\<rparr> (\<lambda>i. 7))
     = Inl DataError"
proof -
  let ?opts = "\<lparr>hash = None, salt = Some (Buf (Uint8Array [1, 2, 3])), iterations = None,
           keyLengthByte = Some 20\<rparr>"
  have pw: "passphrase_bytes (Some (js ''00ff'')) = [0, 255]"
    by (simp add: passphrase_bytes_def str2ab_def buffer_from_string_def js_def unhex_def)
  have 1: "pbkdf2_prim demo_webcrypto (hash_name ?opts) (passphrase_bytes (Some (js ''00ff'')))
      (main_salt ?opts (\<lambda>i. 7)) (iteration_count ?opts) (20 * 8)
      = Inr ([1, 2, 3, 0, 255] @ replicate 15 0)"
    by (simp add: demo_pbkdf2 pw main_salt_def iteration_count_def)
  have 2: "length ([1, 2, 3, 0, 255] @ replicate 15 (0 :: byte)) = 20"
    by simp
  have 3: "keyLengthByte ?opts = Some 20"
    by simp
  have 4: "pbkdf2_prim demo_webcrypto (hash_name ?opts) (passphrase_bytes (Some (js ''00ff'')))
      (fresh_salt ?opts (\<lambda>i. 7)) (iteration_count ?opts / 2) (32 * 8) = Inr (replicate 32 7)"
    by (simp add: demo_pbkdf2 pw fresh_salt_def iteration_count_def map_const_upt
        del: upt_rec_numeral)
  from genSecretKey_keyLength [OF 1 2 3 4] show ?thesis
    by simp
qed

theorem short_keyLength_counterexample:
  "fst (genSecretKey demo_webcrypto (Some (js ''00ff''))
          \<lparr>hash = None, salt = Some (Buf (Uint8Array [1, 2, 3])), iterations = None,
           keyLengthByte = Some 40\<rparr> (\<lambda>i. 7))
     = Inr \<lparr>key = \<lparr>algorithm = ''AES-CBC'', raw = [1, 2, 3, 0, 255] @ replicate 27 0,
                    extractable = True, usages = [''encrypt'', ''decrypt'']\<rparr>,
            iv = ArrayBuffer (replicate 16 0),
            secretSalt = Some (Buf (ArrayBuffer (replicate 32 7)))\<rparr>"
proof -
  have pw: "passphrase_bytes (Some (js ''00ff'')) = [0, 255]"
    by (simp add: passphrase_bytes_def str2ab_def buffer_from_string_def js_def unhex_def)
  show ?thesis
    by (simp add: genSecretKey_result demo_pbkdf2 pw hash_name_def main_salt_def fresh_salt_def
        iteration_count_def key_length_def key_material_def map_const_upt
        del: upt_rec_numeral)
qed

text \<open>
  C8. For text and \<open>Uint8Array\<close> arguments \<open>digest\<close> hashes the data bytes followed by
  the salt bytes. An \<open>ArrayBuffer\<close> argument contributes its length only: in its place
  the hash input holds zero bytes, so two \<open>ArrayBuffer\<close> salts of one length give the
  same digest.
\<close>

theorem digest_ArrayBuffer_zeroed:
  "digest env dat \<lparr>hash = h, salt = Some (Buf (ArrayBuffer s))\<rparr>
     = digest env dat \<lparr>hash = h, salt = Some (Buf (Uint8Array (replicate (length s) 0)))\<rparr>
   \<and> digest env (Buf (ArrayBuffer d)) opts
     = digest env (Buf (Uint8Array (replicate (length d) 0))) opts
   \<and> digest demo_webcrypto (Str (js ''a'')) \<lparr>hash = None, salt = Some (Buf (ArrayBuffer [1]))\<rparr>
     = Inr (js ''6100'')"
proof (intro conjI)
  show "digest env dat \<lparr>hash = h, salt = Some (Buf (ArrayBuffer s))\<rparr>
     = digest env dat \<lparr>hash = h, salt = Some (Buf (Uint8Array (replicate (length s) 0)))\<rparr>"
    by (simp add: digest_def abConcat_two)
  show "digest env (Buf (ArrayBuffer d)) opts
     = digest env (Buf (Uint8Array (replicate (length d) 0))) opts"
    by (simp add: digest_def abConcat_two)
  show "digest demo_webcrypto (Str (js ''a'')) \<lparr>hash = None, salt = Some (Buf (ArrayBuffer [1]))\<rparr>
     = Inr (js ''6100'')"
    by (simp add: codec_defs platform_defs package_defs)
qed

lemma digest_order:
  "digest demo_webcrypto (Str (js ''a'')) \<lparr>hash = None, salt = Some (Str (js ''b''))\<rparr>
     \<noteq> digest demo_webcrypto (Str (js ''b'')) \<lparr>hash = None, salt = Some (Str (js ''a''))\<rparr>"
  by (simp add: codec_defs platform_defs package_defs)

text \<open>
  A consequence for the keys that \<open>genSecretKey\<close> makes: their secretSalt is an
  \<open>ArrayBuffer\<close>, so the trapdoors under them are digests salted with 32 zero bytes.
\<close>

lemma trapdoor_of_generated_key:
  assumes "fst (genSecretKey env secret opts rng) = Inr km" and "pbkdf2_ok env"
  shows "trapdoor env query km
       = digest env query \<lparr>hash = None, salt = Some (Buf (Uint8Array (replicate 32 0)))\<rparr>"
proof -
  from assms(1) obtain bits ss where
    2: "pbkdf2_prim env (hash_name opts) (passphrase_bytes secret) (fresh_salt opts rng)
        (iteration_count opts / 2) (32 * 8) = Inr ss"
    and km: "km = key_material bits ss"
    unfolding genSecretKey_result by (auto split: sum.splits if_splits)
  from 2 assms(2) have "length ss = 32"
    unfolding pbkdf2_ok_def by fastforce
  with km show ?thesis
    by (simp add: trapdoor_def key_material_def digest_def abConcat_two)
qed

end
